theory Spec2Isabelle
  imports Main "HOL-Library.Multiset"
begin

section \<open>Exceptions\<close>

text \<open>
  Every \<^verbatim>\<open>raise\<close> of the Python source is a value of type \<open>exn\<close>, returned as
  \<open>Inl\<close> of a sum. \<open>ValueError\<close>, \<open>IndexError\<close>, \<open>AttributeError\<close> and
  \<open>OverflowError\<close> are the built-in exceptions that the modelled expressions raise
  themselves; \<open>ValidationError\<close> is what the settings class raises for a value it does not
  accept; \<open>Failure msg\<close> is any other subclass of \<^verbatim>\<open>Exception\<close> raised by a library
  the code calls (the operating system, the database driver, the scheduler), with
  \<open>msg\<close> the text of \<^verbatim>\<open>str(e)\<close>.
\<close>

datatype exn = ValueError | IndexError | AttributeError | OverflowError | ValidationError
  | Failure string

section \<open>Python string primitives\<close>

text \<open>
  Strings are lists of characters with code points 0 to 255. Within that range the
  characters for which \<^verbatim>\<open>str.isspace\<close> holds are the twelve listed in \<open>is_space\<close>,
  and the decimal digits are the ten ASCII digits.
\<close>

definition is_space :: "char \<Rightarrow> bool" where
  "is_space c \<longleftrightarrow> c \<in> set [CHR 0x09, CHR 0x0A, CHR 0x0B, CHR 0x0C, CHR 0x0D,
                             CHR 0x1C, CHR 0x1D, CHR 0x1E, CHR 0x1F, CHR 0x20,
                             CHR 0x85, CHR 0xA0]"

definition is_digit :: "char \<Rightarrow> bool" where
  "is_digit c \<longleftrightarrow> c \<in> set ''0123456789''"

definition digit_val :: "char \<Rightarrow> nat" where
  "digit_val c = of_char c - of_char CHR ''0''"

definition digit_char :: "nat \<Rightarrow> char" where
  "digit_char d = ''0123456789'' ! d"

text \<open>
  \<^verbatim>\<open>s.split()\<close> cuts at runs of white space and drops empty pieces;
  \<^verbatim>\<open>s.split(sep)\<close> with a one-character separator cuts at every occurrence and keeps
  empty pieces. In both loops \<open>cur\<close> is the piece being collected.
\<close>

fun split_ws :: "string \<Rightarrow> string \<Rightarrow> string list" where
  "split_ws cur [] = (if cur = [] then [] else [cur])"
| "split_ws cur (c # cs) =
     (if is_space c then (if cur = [] then split_ws [] cs else cur # split_ws [] cs)
      else split_ws (cur @ [c]) cs)"

definition py_split :: "string \<Rightarrow> string list" where
  "py_split s = split_ws [] s"

fun split_sep :: "char \<Rightarrow> string \<Rightarrow> string \<Rightarrow> string list" where
  "split_sep sep cur [] = [cur]"
| "split_sep sep cur (c # cs) =
     (if c = sep then cur # split_sep sep [] cs else split_sep sep (cur @ [c]) cs)"

definition py_split_on :: "char \<Rightarrow> string \<Rightarrow> string list" where
  "py_split_on sep s = split_sep sep [] s"

text \<open>
  \<^verbatim>\<open>xs[i]\<close> with a non-negative literal index raises IndexError out of range.
\<close>

definition py_index :: "'a list \<Rightarrow> nat \<Rightarrow> exn + 'a" where
  "py_index xs i = (if i < length xs then Inr (xs ! i) else Inl IndexError)"

text \<open>
  \<^verbatim>\<open>int(s)\<close> in base ten: surrounding white space is stripped, one sign is allowed, and
  the digits may be grouped by single underscores between digits. Anything else raises
  ValueError. The conversion strips the ASCII white space and the two white-space characters
  above 127; the separators 0x1C to 0x1F, at which \<^verbatim>\<open>split()\<close> cuts, are not stripped.
  The interpreter's optional limit on the number of digits is not modelled.
\<close>

definition is_int_space :: "char \<Rightarrow> bool" where
  "is_int_space c \<longleftrightarrow> c \<in> set [CHR 0x09, CHR 0x0A, CHR 0x0B, CHR 0x0C, CHR 0x0D, CHR 0x20,
                                 CHR 0x85, CHR 0xA0]"

definition py_strip :: "string \<Rightarrow> string" where
  "py_strip s = rev (dropWhile is_int_space (rev (dropWhile is_int_space s)))"

fun parse_digits :: "nat \<Rightarrow> string \<Rightarrow> nat option" where
  "parse_digits acc [] = Some acc"
| "parse_digits acc (c # cs) =
     (if is_digit c then parse_digits (10 * acc + digit_val c) cs
      else if c = CHR ''_'' then
        (case cs of
           [] \<Rightarrow> None
         | d # ds \<Rightarrow> if is_digit d then parse_digits (10 * acc + digit_val d) ds else None)
      else None)"

definition parse_nat :: "string \<Rightarrow> nat option" where
  "parse_nat s =
     (case s of [] \<Rightarrow> None
      | c # cs \<Rightarrow> if is_digit c then parse_digits (digit_val c) cs else None)"

definition py_int :: "string \<Rightarrow> exn + int" where
  "py_int s =
     (case py_strip s of
        [] \<Rightarrow> Inl ValueError
      | c # cs \<Rightarrow>
          if c = CHR ''-'' then
            (case parse_nat cs of None \<Rightarrow> Inl ValueError | Some n \<Rightarrow> Inr (- int n))
          else if c = CHR ''+'' then
            (case parse_nat cs of None \<Rightarrow> Inl ValueError | Some n \<Rightarrow> Inr (int n))
          else
            (case parse_nat (c # cs) of None \<Rightarrow> Inl ValueError | Some n \<Rightarrow> Inr (int n)))"

text \<open>
  \<^verbatim>\<open>str(i)\<close> of an integer, as an f-string renders it.
\<close>

fun str_nat :: "nat \<Rightarrow> string" where
  "str_nat n = (if n < 10 then [digit_char n] else str_nat (n div 10) @ [digit_char (n mod 10)])"

definition py_str :: "int \<Rightarrow> string" where
  "py_str i = (if i < 0 then CHR ''-'' # str_nat (nat (- i)) else str_nat (nat i))"

section \<open>Image file names\<close>

text \<open>
  \<^verbatim>\<open>parse_image_filename\<close> of \<^verbatim>\<open>app/utils/file_utils.py\<close>: split at underscores,
  take piece 0 as the document id, convert piece 2, and convert what precedes the first dot of
  piece 4. \<open>generate_image_filename\<close> is the format its docstring names,
  \<^verbatim>\<open>{document_id}_page_{page_num}_image_{img_index}.{ext}\<close>.
\<close>

definition parse_image_filename :: "string \<Rightarrow> exn + (string \<times> int \<times> int)" where
  "parse_image_filename filename =
     (let parts = py_split_on CHR ''_'' filename in
      case py_index parts 0 of
        Inl e \<Rightarrow> Inl e
      | Inr document_id \<Rightarrow>
          (case py_index parts 2 of
             Inl e \<Rightarrow> Inl e
           | Inr page_part \<Rightarrow>
               (case py_int page_part of
                  Inl e \<Rightarrow> Inl e
                | Inr page_num \<Rightarrow>
                    (case py_index parts 4 of
                       Inl e \<Rightarrow> Inl e
                     | Inr image_part \<Rightarrow>
                         (case py_index (py_split_on CHR ''.'' image_part) 0 of
                            Inl e \<Rightarrow> Inl e
                          | Inr index_part \<Rightarrow>
                              (case py_int index_part of
                                 Inl e \<Rightarrow> Inl e
                               | Inr img_index \<Rightarrow> Inr (document_id, page_num, img_index)))))))"

definition generate_image_filename :: "string \<Rightarrow> int \<Rightarrow> int \<Rightarrow> string \<Rightarrow> string" where
  "generate_image_filename document_id page_num img_index ext =
     document_id @ ''_page_'' @ py_str page_num @ ''_image_'' @ py_str img_index @ ''.'' @ ext"

section \<open>Storage model\<close>

text \<open>
  The tables of \<^verbatim>\<open>app/database/models.py\<close>. A time stamp is a number of microseconds
  (the resolution of \<^verbatim>\<open>datetime\<close>). The generated primary keys and creation times of
  the child rows are left out: no modelled code reads them. A row of a child table refers to
  its document by the document's id.
\<close>

type_synonym datetime = int

record PDFDocument =
  doc_id :: string
  doc_filename :: string
  original_filename :: string
  created_at :: datetime

record TextContent =
  text_document_id :: string
  text_page_number :: int
  content :: string

record Image =
  image_document_id :: string
  image_page_number :: int
  image_index :: int
  image_filename :: string

record Table =
  table_document_id :: string
  table_page_number :: int
  table_index :: int
  table_data :: string

record database =
  pdf_documents :: "PDFDocument list"
  text_contents :: "TextContent list"
  images :: "Image list"
  tables :: "Table list"

text \<open>
  An ORM session over the database: \<^verbatim>\<open>db.add\<close> queues a row, \<^verbatim>\<open>db.commit()\<close> writes
  all queued rows at once or raises and writes none (\<open>commit_fault\<close> is the exception the
  database raises at commit, if any). The session is created with \<^verbatim>\<open>autoflush=False\<close>,
  so queries read the committed \<open>store\<close> only.
\<close>

datatype row = DocumentRow PDFDocument | TextRow TextContent | ImageRow Image | TableRow Table

record session =
  store :: database
  pending :: "row list"
  commit_fault :: "exn option"

definition db_add :: "row \<Rightarrow> session \<Rightarrow> session" where
  "db_add r s = s\<lparr>pending := pending s @ [r]\<rparr>"

fun insert_row :: "row \<Rightarrow> database \<Rightarrow> database" where
  "insert_row (DocumentRow d) tabs = tabs\<lparr>pdf_documents := pdf_documents tabs @ [d]\<rparr>"
| "insert_row (TextRow t) tabs = tabs\<lparr>text_contents := text_contents tabs @ [t]\<rparr>"
| "insert_row (ImageRow i) tabs = tabs\<lparr>images := images tabs @ [i]\<rparr>"
| "insert_row (TableRow t) tabs = tabs\<lparr>tables := tables tabs @ [t]\<rparr>"

definition db_commit :: "session \<Rightarrow> exn + session" where
  "db_commit s =
     (case commit_fault s of
        Some e \<Rightarrow> Inl e
      | None \<Rightarrow> Inr (s\<lparr>store := fold insert_row (pending s) (store s), pending := []\<rparr>))"

section \<open>Repository\<close>

text \<open>
  \<^verbatim>\<open>PDFRepository.save_text_content\<close>: the dictionary is a list of (label, text) pairs in
  insertion order. \<open>page_number_of_key\<close> is the expression
  \<^verbatim>\<open>int(page_key.split()[1])\<close>; \<open>add_text_rows\<close> is the loop, with the list of
  created records as accumulator; an exception leaves the loop before the commit.
\<close>

definition page_number_of_key :: "string \<Rightarrow> exn + int" where
  "page_number_of_key page_key =
     (case py_index (py_split page_key) 1 of
        Inl e \<Rightarrow> Inl e
      | Inr tok \<Rightarrow> py_int tok)"

fun add_text_rows ::
  "string \<Rightarrow> (string \<times> string) list \<Rightarrow> TextContent list \<Rightarrow> session
   \<Rightarrow> (exn + TextContent list) \<times> session" where
  "add_text_rows document_id [] acc s = (Inr acc, s)"
| "add_text_rows document_id ((page_key, text) # rest) acc s =
     (case page_number_of_key page_key of
        Inl e \<Rightarrow> (Inl e, s)
      | Inr page_number \<Rightarrow>
          (let text_content = \<lparr>text_document_id = document_id,
                                text_page_number = page_number, content = text\<rparr>
           in add_text_rows document_id rest (acc @ [text_content])
                (db_add (TextRow text_content) s)))"

definition save_text_content ::
  "session \<Rightarrow> string \<Rightarrow> (string \<times> string) list \<Rightarrow> (exn + TextContent list) \<times> session" where
  "save_text_content s document_id text_data =
     (case add_text_rows document_id text_data [] s of
        (Inl e, s') \<Rightarrow> (Inl e, s')
      | (Inr saved, s') \<Rightarrow>
          (case db_commit s' of
             Inl e \<Rightarrow> (Inl e, s')
           | Inr s'' \<Rightarrow> (Inr saved, s'')))"

text \<open>
  \<^verbatim>\<open>PDFRepository.get_document\<close>: \<^verbatim>\<open>filter(id == document_id).first()\<close> is the first
  matching row or \<^verbatim>\<open>None\<close>.
\<close>

definition get_document :: "session \<Rightarrow> string \<Rightarrow> PDFDocument option" where
  "get_document s document_id = find (\<lambda>d. doc_id d = document_id) (pdf_documents (store s))"

text \<open>
  \<^verbatim>\<open>PDFRepository.list_documents\<close>: \<^verbatim>\<open>order_by(created_at.desc()).offset(skip).limit(limit)\<close>.
  The order among documents with equal creation time is the database's choice; the model
  keeps their stored order. \<open>skip\<close> and \<open>limit\<close> are natural numbers.
\<close>

definition order_by_created_at_desc :: "PDFDocument list \<Rightarrow> PDFDocument list" where
  "order_by_created_at_desc ds = sort_key (\<lambda>d. - created_at d) ds"

definition list_documents :: "session \<Rightarrow> nat \<Rightarrow> nat \<Rightarrow> PDFDocument list" where
  "list_documents s skip limit =
     take limit (drop skip (order_by_created_at_desc (pdf_documents (store s))))"

section \<open>Settings\<close>

text \<open>
  The fields of \<^verbatim>\<open>Settings\<close> in \<^verbatim>\<open>app/config.py\<close> that the worker reads, and the
  construction \<^verbatim>\<open>settings = Settings()\<close> at the end of that file. The class takes
  \<^verbatim>\<open>FILE_RETENTION_MINUTES\<close> from the process environment (\<open>environ\<close>) or else from the
  \<^verbatim>\<open>.env\<close> file (\<open>dotenv\<close>), and uses the class default 10 when both are unset. The
  text found is converted by the settings library; the conversion is the parameter
  \<open>validate_int\<close>, and a text it does not accept makes the construction raise.
  \<open>lax_int\<close> is the conversion as the library documents it: an integer literal,
  optionally followed by a decimal point and zeros.
\<close>

record settings =
  FILE_RETENTION_MINUTES :: int
  UPLOAD_FOLDER :: string
  IMAGE_FOLDER :: string

definition Settings ::
  "(string \<Rightarrow> int option) \<Rightarrow> string option \<Rightarrow> string option \<Rightarrow> string \<Rightarrow> string
   \<Rightarrow> exn + settings" where
  "Settings validate_int environ dotenv upload_folder image_folder =
     (case (case environ of Some v \<Rightarrow> Some v | None \<Rightarrow> dotenv) of
        None \<Rightarrow>
          Inr \<lparr>FILE_RETENTION_MINUTES = 10,
               UPLOAD_FOLDER = upload_folder, IMAGE_FOLDER = image_folder\<rparr>
      | Some v \<Rightarrow>
          (case validate_int v of
             None \<Rightarrow> Inl ValidationError
           | Some n \<Rightarrow>
               Inr \<lparr>FILE_RETENTION_MINUTES = n,
                    UPLOAD_FOLDER = upload_folder, IMAGE_FOLDER = image_folder\<rparr>))"

definition lax_int :: "string \<Rightarrow> int option" where
  "lax_int s =
     (let t = py_strip s;
          whole = takeWhile (\<lambda>c. c \<noteq> CHR ''.'') t;
          frac = dropWhile (\<lambda>c. c \<noteq> CHR ''.'') t
      in if frac = [] \<or> list_all (\<lambda>c. c = CHR ''0'') (tl frac)
         then (case py_int whole of Inr n \<Rightarrow> Some n | Inl e \<Rightarrow> None)
         else None)"

section \<open>Retention sweeper\<close>

subsection \<open>Scheduler and worker\<close>

text \<open>
  \<^verbatim>\<open>BackgroundScheduler\<close> belongs to the APScheduler library. The worker uses its
  \<^verbatim>\<open>running\<close> flag, \<^verbatim>\<open>start()\<close>, \<^verbatim>\<open>shutdown()\<close>, \<^verbatim>\<open>add_job\<close>, \<^verbatim>\<open>get_job\<close> and
  \<^verbatim>\<open>get_jobs\<close>. \<open>jobs\<close> holds the jobs the lookups see: the pending jobs of a
  stopped scheduler, the stored jobs of a running one. The library's \<^verbatim>\<open>start()\<close> raises
  when the scheduler is running already; otherwise it stores the pending jobs, each with
  the first fire time of its trigger (\<open>fire\<close>). \<^verbatim>\<open>shutdown()\<close> raises when the
  scheduler is not running; otherwise it shuts the in-memory job store down, which removes
  its jobs. The two counters record how often these library calls were made.
  \<open>get_job_fault\<close> and \<open>get_jobs_fault\<close> are the exceptions the two lookups raise,
  if any.
\<close>

record job =
  job_id :: string
  job_name :: string
  next_run_time :: "datetime option"

record scheduler =
  running :: bool
  jobs :: "job list"
  start_calls :: nat
  shutdown_calls :: nat
  get_job_fault :: "exn option"
  get_jobs_fault :: "exn option"

record worker =
  retention_minutes :: int
  scheduler :: scheduler

definition scheduler_start :: "datetime \<Rightarrow> scheduler \<Rightarrow> exn + scheduler" where
  "scheduler_start fire s =
     (if running s then Inl (Failure ''Scheduler is already running'')
      else Inr (s\<lparr>running := True,
                 jobs := map (\<lambda>j. j\<lparr>next_run_time := Some fire\<rparr>) (jobs s),
                 start_calls := Suc (start_calls s)\<rparr>))"

definition scheduler_shutdown :: "scheduler \<Rightarrow> exn + scheduler" where
  "scheduler_shutdown s =
     (if running s
      then Inr (s\<lparr>running := False, jobs := [], shutdown_calls := Suc (shutdown_calls s)\<rparr>)
      else Inl (Failure ''Scheduler is not running''))"

definition get_job :: "scheduler \<Rightarrow> string \<Rightarrow> exn + job option" where
  "get_job s jid =
     (case get_job_fault s of
        Some e \<Rightarrow> Inl e
      | None \<Rightarrow> Inr (find (\<lambda>j. job_id j = jid) (jobs s)))"

definition get_jobs :: "scheduler \<Rightarrow> exn + job list" where
  "get_jobs s = (case get_jobs_fault s of Some e \<Rightarrow> Inl e | None \<Rightarrow> Inr (jobs s))"

text \<open>
  \<^verbatim>\<open>FileCleanupWorker.__init__\<close> stores the retention period, creates the scheduler and
  registers the job; \<open>scheduler_fault\<close> is the exception the library raises while doing so,
  if any. \<^verbatim>\<open>start\<close> and \<^verbatim>\<open>stop\<close> test the flag and call the library only behind the test.
\<close>

definition FileCleanupWorker :: "exn option \<Rightarrow> int \<Rightarrow> exn + worker" where
  "FileCleanupWorker scheduler_fault retention =
     (case scheduler_fault of
        Some e \<Rightarrow> Inl e
      | None \<Rightarrow>
          Inr \<lparr>retention_minutes = retention,
               scheduler =
                 \<lparr>running = False,
                  jobs = [\<lparr>job_id = ''cleanup_old_files'',
                           job_name = ''Cleanup old PDF files and images'',
                           next_run_time = None\<rparr>],
                  start_calls = 0, shutdown_calls = 0,
                  get_job_fault = None, get_jobs_fault = None\<rparr>\<rparr>)"

definition start :: "datetime \<Rightarrow> worker \<Rightarrow> exn + worker" where
  "start fire w =
     (if \<not> running (scheduler w)
      then (case scheduler_start fire (scheduler w) of
              Inl e \<Rightarrow> Inl e
            | Inr s \<Rightarrow> Inr (w\<lparr>scheduler := s\<rparr>))
      else Inr w)"

definition stop :: "worker \<Rightarrow> exn + worker" where
  "stop w =
     (if running (scheduler w)
      then (case scheduler_shutdown (scheduler w) of
              Inl e \<Rightarrow> Inl e
            | Inr s \<Rightarrow> Inr (w\<lparr>scheduler := s\<rparr>))
      else Inr w)"

subsection \<open>The sweep\<close>

text \<open>
  \<^verbatim>\<open>cleanup_old_files\<close> runs against a world of existing file paths, the database and
  the log written so far. What lies outside the code is given by \<open>faults\<close>:
  \<open>db_compare c t\<close> is how the database compares a stored creation time \<open>c\<close> with
  the bound threshold \<open>t\<close> (the column is assigned by the database and is time-zone
  aware, the threshold is the application's naive local time, and how the two are compared
  is the engine's business; \<open>compare_instants\<close> is the comparison of two points of one
  time axis); then \<^verbatim>\<open>SessionLocal()\<close>
  raising, the query raising, the lazy load of a document's \<^verbatim>\<open>images\<close> relationship
  raising (it is a second query, issued at the attribute access), and \<^verbatim>\<open>os.remove\<close>
  raising for a path. A log entry of level error carries the exception whose text the
  source appends to the message.
\<close>

datatype log_entry = LogInfo string | LogWarning string | LogError string exn

datatype comparison = Before | Same | After

definition compare_instants :: "datetime \<Rightarrow> datetime \<Rightarrow> comparison" where
  "compare_instants c t = (if c < t then Before else if c = t then Same else After)"

record faults =
  db_compare :: "datetime \<Rightarrow> datetime \<Rightarrow> comparison"
  connect_fault :: "exn option"
  query_fault :: "exn option"
  images_fault :: "string \<Rightarrow> exn option"
  remove_fault :: "string \<Rightarrow> exn option"

record world =
  files :: "string set"
  db :: database
  log_lines :: "log_entry list"

text \<open>
  A \<^verbatim>\<open>datetime\<close> is counted in microseconds from the first instant of year 1 and ends
  with year 9999. \<^verbatim>\<open>timedelta(minutes=m)\<close> raises OverflowError beyond 999999999 days.
\<close>

definition datetime_max :: datetime where
  "datetime_max = 315537897599999999"

definition timedelta_minutes :: "int \<Rightarrow> exn + int" where
  "timedelta_minutes m =
     (if - 999999999 \<le> m div 1440 \<and> m div 1440 \<le> 999999999 then Inr (m * 60000000)
      else Inl OverflowError)"

definition os_path_join :: "string \<Rightarrow> string \<Rightarrow> string" where
  "os_path_join a b =
     (if b \<noteq> [] \<and> hd b = CHR ''/'' then b
      else if a = [] \<or> last a = CHR ''/'' then a @ b
      else a @ ''/'' @ b)"

definition logger :: "log_entry \<Rightarrow> world \<Rightarrow> world" where
  "logger e w = w\<lparr>log_lines := log_lines w @ [e]\<rparr>"

definition os_remove :: "faults \<Rightarrow> string \<Rightarrow> world \<Rightarrow> exn + world" where
  "os_remove f path w =
     (case remove_fault f path of
        Some e \<Rightarrow> Inl e
      | None \<Rightarrow>
          if path \<in> files w then Inr (w\<lparr>files := files w - {path}\<rparr>)
          else Inl (Failure ''No such file or directory''))"

text \<open>
  The two guarded deletions of the loop body: test existence, remove, and log; an
  exception of the removal is caught and logged.
\<close>

definition delete_pdf_file :: "faults \<Rightarrow> string \<Rightarrow> world \<Rightarrow> world" where
  "delete_pdf_file f pdf_path w =
     (if pdf_path \<in> files w then
        (case os_remove f pdf_path w of
           Inr w' \<Rightarrow> logger (LogInfo (''Deleted PDF file: '' @ pdf_path)) w'
         | Inl e \<Rightarrow> logger (LogError (''Error deleting PDF file '' @ pdf_path @ '': '') e) w)
      else logger (LogWarning (''PDF file not found for deletion: '' @ pdf_path)) w)"

definition delete_image_file :: "faults \<Rightarrow> string \<Rightarrow> world \<Rightarrow> world" where
  "delete_image_file f image_path w =
     (if image_path \<in> files w then
        (case os_remove f image_path w of
           Inr w' \<Rightarrow> logger (LogInfo (''Deleted image file: '' @ image_path)) w'
         | Inl e \<Rightarrow> logger (LogError (''Error deleting image file '' @ image_path @ '': '') e) w)
      else logger (LogWarning (''Image file not found for deletion: '' @ image_path)) w)"

fun delete_image_files :: "faults \<Rightarrow> settings \<Rightarrow> Image list \<Rightarrow> world \<Rightarrow> world" where
  "delete_image_files f st [] w = w"
| "delete_image_files f st (img # rest) w =
     delete_image_files f st rest
       (delete_image_file f (os_path_join (IMAGE_FOLDER st) (image_filename img)) w)"

text \<open>
  \<^verbatim>\<open>document.images\<close> and the body of the loop over the old documents. The attribute
  access stands outside the two inner handlers, so its exception leaves the loop.
\<close>

definition document_images :: "faults \<Rightarrow> PDFDocument \<Rightarrow> world \<Rightarrow> exn + Image list" where
  "document_images f document w =
     (case images_fault f (doc_id document) of
        Some e \<Rightarrow> Inl e
      | None \<Rightarrow> Inr (filter (\<lambda>i. image_document_id i = doc_id document) (images (db w))))"

definition cleanup_document ::
  "faults \<Rightarrow> settings \<Rightarrow> PDFDocument \<Rightarrow> world \<Rightarrow> exn option \<times> world" where
  "cleanup_document f st document w =
     (let w1 = logger (LogInfo (''Cleaning up document: '' @ doc_id document)) w;
          pdf_path = os_path_join (UPLOAD_FOLDER st) (doc_filename document);
          w2 = delete_pdf_file f pdf_path w1
      in case document_images f document w2 of
           Inl e \<Rightarrow> (Some e, w2)
         | Inr imgs \<Rightarrow> (None, delete_image_files f st imgs w2))"

fun cleanup_documents ::
  "faults \<Rightarrow> settings \<Rightarrow> PDFDocument list \<Rightarrow> world \<Rightarrow> exn option \<times> world" where
  "cleanup_documents f st [] w = (None, w)"
| "cleanup_documents f st (document # rest) w =
     (case cleanup_document f st document w of
        (Some e, w') \<Rightarrow> (Some e, w')
      | (None, w') \<Rightarrow> cleanup_documents f st rest w')"

text \<open>
  The threshold, the query, and the function itself. The query's condition
  \<^verbatim>\<open>PDFDocument.created_at < retention_threshold\<close> selects the rows that the database
  finds before the threshold, not those it finds the same. The subtraction
  \<^verbatim>\<open>datetime.now() - timedelta(minutes=...)\<close> raises OverflowError when its result leaves
  the years 1 to 9999; it stands inside the outer \<^verbatim>\<open>try\<close>, before the session is
  opened. \<open>process_old_documents\<close> is the part of the inner \<^verbatim>\<open>try\<close> after the query:
  the early return on an empty result, the loop, and the closing log line, which is
  reached only when the loop ends normally. \<open>cleanup_body\<close> is the whole body of the
  outer \<^verbatim>\<open>try\<close>, and \<open>cleanup_old_files\<close> adds the outer handler. \<^verbatim>\<open>db.close()\<close>
  changes nothing that is modelled. The function contains no deletion of a database row
  and no commit.
\<close>

definition retention_threshold :: "datetime \<Rightarrow> worker \<Rightarrow> exn + datetime" where
  "retention_threshold now wk =
     (case timedelta_minutes (retention_minutes wk) of
        Inl e \<Rightarrow> Inl e
      | Inr delta \<Rightarrow>
          if 0 \<le> now - delta \<and> now - delta \<le> datetime_max then Inr (now - delta)
          else Inl OverflowError)"

definition query_old_documents :: "faults \<Rightarrow> datetime \<Rightarrow> database \<Rightarrow> PDFDocument list" where
  "query_old_documents f threshold database =
     filter (\<lambda>d. db_compare f (created_at d) threshold = Before) (pdf_documents database)"

definition process_old_documents ::
  "faults \<Rightarrow> settings \<Rightarrow> PDFDocument list \<Rightarrow> world \<Rightarrow> exn option \<times> world" where
  "process_old_documents f st old_documents w =
     (if old_documents = [] then
        (None, logger (LogInfo ''No old documents found for cleanup'') w)
      else
        (let w2 = logger (LogInfo (''Found '' @ py_str (int (length old_documents))
                                    @ '' old documents to clean up'')) w
         in case cleanup_documents f st old_documents w2 of
              (Some e, w3) \<Rightarrow> (Some e, w3)
            | (None, w3) \<Rightarrow> (None, logger (LogInfo ''File cleanup task completed'') w3)))"

definition cleanup_body ::
  "faults \<Rightarrow> settings \<Rightarrow> datetime \<Rightarrow> worker \<Rightarrow> world \<Rightarrow> exn option \<times> world" where
  "cleanup_body f st now wk w =
     (let w1 = logger (LogInfo ''Running file cleanup task'') w
      in case retention_threshold now wk of
           Inl e \<Rightarrow> (Some e, w1)
         | Inr threshold \<Rightarrow>
             (case connect_fault f of
                Some e \<Rightarrow> (Some e, w1)
              | None \<Rightarrow>
                  (case query_fault f of
                     Some e \<Rightarrow> (Some e, w1)
                   | None \<Rightarrow>
                       process_old_documents f st
                         (query_old_documents f threshold (db w1)) w1)))"

definition cleanup_old_files ::
  "faults \<Rightarrow> settings \<Rightarrow> datetime \<Rightarrow> worker \<Rightarrow> world \<Rightarrow> (exn + unit) \<times> world" where
  "cleanup_old_files f st now wk w =
     (case cleanup_body f st now wk w of
        (Some e, w') \<Rightarrow> (Inr (), logger (LogError ''Error in file cleanup task: '' e) w')
      | (None, w') \<Rightarrow> (Inr (), w'))"

subsection \<open>Creation of the worker at import time\<close>

text \<open>
  The import of \<^verbatim>\<open>app/workers/file_cleanup.py\<close>. Its line 9 imports the settings object,
  which \<^verbatim>\<open>app/config.py\<close> constructs; an exception of that construction is outside every
  handler and ends the import without a worker. \<open>retention_from_env\<close> is lines 120 to
  133: it reads the setting, then the same variable from the process environment, and
  converts a non-empty value with \<^verbatim>\<open>int\<close>; only ValueError is caught there.
  \<open>create_worker\<close> is the outer \<^verbatim>\<open>try\<close> of lines 118 to 153: it constructs the worker
  and, on any exception, constructs it again with 10. \<open>file_cleanup_worker\<close> is the
  whole import, with the settings and the environment value read from one environment.
\<close>

definition retention_from_env :: "settings \<Rightarrow> string option \<Rightarrow> exn + int" where
  "retention_from_env st env_retention =
     (let retention = FILE_RETENTION_MINUTES st
      in case env_retention of
           None \<Rightarrow> Inr retention
         | Some v \<Rightarrow>
             if v = [] then Inr retention
             else (case py_int v of
                     Inr n \<Rightarrow> Inr n
                   | Inl ValueError \<Rightarrow> Inr retention
                   | Inl e \<Rightarrow> Inl e))"

definition create_worker ::
  "settings \<Rightarrow> string option \<Rightarrow> exn option \<Rightarrow> exn option \<Rightarrow> exn + worker" where
  "create_worker st env_retention first_fault second_fault =
     (case (case retention_from_env st env_retention of
              Inl e \<Rightarrow> Inl e
            | Inr retention \<Rightarrow> FileCleanupWorker first_fault retention) of
        Inr w \<Rightarrow> Inr w
      | Inl e \<Rightarrow> FileCleanupWorker second_fault 10)"

definition file_cleanup_worker ::
  "(string \<Rightarrow> int option) \<Rightarrow> string option \<Rightarrow> string option \<Rightarrow> string \<Rightarrow> string
   \<Rightarrow> exn option \<Rightarrow> exn option \<Rightarrow> exn + worker" where
  "file_cleanup_worker validate_int environ dotenv upload_folder image_folder
     first_fault second_fault =
     (case Settings validate_int environ dotenv upload_folder image_folder of
        Inl e \<Rightarrow> Inl e
      | Inr st \<Rightarrow> create_worker st environ first_fault second_fault)"

section \<open>Worker status\<close>

text \<open>
  \<^verbatim>\<open>get_worker_status\<close> of \<^verbatim>\<open>app/controllers/worker_controller.py\<close> returns a
  dictionary; \<open>PIsoformat t\<close> stands for the string \<^verbatim>\<open>t.isoformat()\<close>. The values are
  evaluated in the order of the dictionary display. The function has no exception handler.
\<close>

datatype pyval = PNone | PBool bool | PInt int | PStr string | PIsoformat datetime
  | PDict "(string \<times> pyval) list"

definition next_run :: "worker \<Rightarrow> exn + pyval" where
  "next_run w =
     (if running (scheduler w) then
        (case get_job (scheduler w) ''cleanup_old_files'' of
           Inl e \<Rightarrow> Inl e
         | Inr None \<Rightarrow> Inl AttributeError
         | Inr (Some j) \<Rightarrow>
             (case next_run_time j of
                None \<Rightarrow> Inl AttributeError
              | Some t \<Rightarrow> Inr (PIsoformat t)))
      else Inr PNone)"

definition get_worker_status :: "worker \<Rightarrow> exn + pyval" where
  "get_worker_status w =
     (case next_run w of
        Inl e \<Rightarrow> Inl e
      | Inr nr \<Rightarrow>
          (case get_jobs (scheduler w) of
             Inl e \<Rightarrow> Inl e
           | Inr js \<Rightarrow>
               Inr (PDict [(''file_cleanup_worker'',
                      PDict [(''running'', PBool (running (scheduler w))),
                             (''retention_minutes'', PInt (retention_minutes w)),
                             (''next_run'', nr),
                             (''job_count'', PInt (int (length js)))])])))"

section \<open>Notions used in the statements\<close>

text \<open>
  The record that a well-formed (label, text) pair produces; the paths of a document's files;
  the image rows of a document. \<open>swept\<close>: every file of the document whose removal does
  not raise is absent afterwards. \<open>reported\<close>: every file of the document that was missing
  before the sweep has its warning in the log, and every file that existed and whose removal
  raises has its error in the log. \<open>paths_of\<close>: the paths a document names.
  \<open>cleaned_ids\<close> reads from a log the ids of the documents whose processing was begun,
  in order. \<open>strictly_older\<close> is the selection in the words of the specification: the
  stored documents created strictly before now minus r minutes. \<open>carried\<close> relates a
  world to a later one in which the database is the same, no file is new, every file whose
  removal raises is still there, and the log has only grown.
\<close>

definition text_row :: "string \<Rightarrow> string \<times> string \<Rightarrow> TextContent" where
  "text_row document_id kc =
     \<lparr>text_document_id = document_id,
      text_page_number = (case page_number_of_key (fst kc) of Inr n \<Rightarrow> n | Inl _ \<Rightarrow> 0),
      content = snd kc\<rparr>"

definition pdf_path_of :: "settings \<Rightarrow> PDFDocument \<Rightarrow> string" where
  "pdf_path_of st d = os_path_join (UPLOAD_FOLDER st) (doc_filename d)"

definition image_path_of :: "settings \<Rightarrow> Image \<Rightarrow> string" where
  "image_path_of st i = os_path_join (IMAGE_FOLDER st) (image_filename i)"

definition images_of :: "database \<Rightarrow> PDFDocument \<Rightarrow> Image list" where
  "images_of database d = filter (\<lambda>i. image_document_id i = doc_id d) (images database)"

definition swept :: "faults \<Rightarrow> settings \<Rightarrow> database \<Rightarrow> world \<Rightarrow> PDFDocument \<Rightarrow> bool" where
  "swept f st database w' d \<longleftrightarrow>
     (remove_fault f (pdf_path_of st d) = None \<longrightarrow> pdf_path_of st d \<notin> files w')
     \<and> (\<forall>i \<in> set (images_of database d).
           remove_fault f (image_path_of st i) = None \<longrightarrow> image_path_of st i \<notin> files w')"

definition reported :: "faults \<Rightarrow> settings \<Rightarrow> world \<Rightarrow> world \<Rightarrow> PDFDocument \<Rightarrow> bool" where
  "reported f st w w' d \<longleftrightarrow>
     (pdf_path_of st d \<notin> files w \<longrightarrow>
        LogWarning (''PDF file not found for deletion: '' @ pdf_path_of st d)
          \<in> set (log_lines w'))
     \<and> (\<forall>e. pdf_path_of st d \<in> files w \<and> remove_fault f (pdf_path_of st d) = Some e \<longrightarrow>
           LogError (''Error deleting PDF file '' @ pdf_path_of st d @ '': '') e
             \<in> set (log_lines w'))
     \<and> (\<forall>i \<in> set (images_of (db w) d).
           (image_path_of st i \<notin> files w \<longrightarrow>
              LogWarning (''Image file not found for deletion: '' @ image_path_of st i)
                \<in> set (log_lines w'))
           \<and> (\<forall>e. image_path_of st i \<in> files w \<and> remove_fault f (image_path_of st i) = Some e \<longrightarrow>
                 LogError (''Error deleting image file '' @ image_path_of st i @ '': '') e
                   \<in> set (log_lines w')))"

definition paths_of :: "settings \<Rightarrow> database \<Rightarrow> PDFDocument \<Rightarrow> string set" where
  "paths_of st database d =
     insert (pdf_path_of st d) (image_path_of st ` set (images_of database d))"

fun cleaned_ids :: "log_entry list \<Rightarrow> string list" where
  "cleaned_ids [] = []"
| "cleaned_ids (LogInfo m # es) =
     (if take 22 m = ''Cleaning up document: '' then drop 22 m # cleaned_ids es
      else cleaned_ids es)"
| "cleaned_ids (e # es) = cleaned_ids es"

definition strictly_older :: "datetime \<Rightarrow> int \<Rightarrow> database \<Rightarrow> PDFDocument list" where
  "strictly_older now r database =
     filter (\<lambda>d. created_at d < now - 60000000 * r) (pdf_documents database)"

definition carried :: "faults \<Rightarrow> world \<Rightarrow> world \<Rightarrow> bool" where
  "carried f w0 w \<longleftrightarrow>
     db w = db w0 \<and> files w \<subseteq> files w0
     \<and> (\<forall>q. remove_fault f q \<noteq> None \<longrightarrow> q \<in> files w0 \<longrightarrow> q \<in> files w)
     \<and> set (log_lines w0) \<subseteq> set (log_lines w)
     \<and> (\<forall>q \<in> files w0.
           q \<in> files w
           \<or> LogInfo (''Deleted PDF file: '' @ q) \<in> set (log_lines w)
           \<or> LogInfo (''Deleted image file: '' @ q) \<in> set (log_lines w))"

section \<open>Concrete inputs\<close>

definition empty_db :: database where
  "empty_db = \<lparr>pdf_documents = [], text_contents = [], images = [], tables = []\<rparr>"

definition fresh_session :: session where
  "fresh_session = \<lparr>store = empty_db, pending = [], commit_fault = None\<rparr>"

definition three_docs :: session where
  "three_docs =
     \<lparr>store = \<lparr>pdf_documents =
                 [\<lparr>doc_id = ''a'', doc_filename = ''a.pdf'', original_filename = ''A.pdf'',
                   created_at = 100\<rparr>,
                  \<lparr>doc_id = ''b'', doc_filename = ''b.pdf'', original_filename = ''B.pdf'',
                   created_at = 300\<rparr>,
                  \<lparr>doc_id = ''c'', doc_filename = ''c.pdf'', original_filename = ''C.pdf'',
                   created_at = 200\<rparr>],
               text_contents = [], images = [], tables = []\<rparr>,
      pending = [], commit_fault = None\<rparr>"

definition no_faults :: faults where
  "no_faults = \<lparr>db_compare = compare_instants, connect_fault = None, query_fault = None,
                images_fault = (\<lambda>_. None), remove_fault = (\<lambda>_. None)\<rparr>"

definition upload0 :: string where "upload0 = ''/srv/uploads/pdfs''"

definition image0 :: string where "image0 = ''/srv/uploads/images''"

definition st0 :: settings where
  "st0 = \<lparr>FILE_RETENTION_MINUTES = 10, UPLOAD_FOLDER = ''/srv/uploads/pdfs'',
          IMAGE_FOLDER = ''/srv/uploads/images''\<rparr>"

definition stopped_scheduler :: scheduler where
  "stopped_scheduler =
     \<lparr>running = False,
      jobs = [\<lparr>job_id = ''cleanup_old_files'', job_name = ''Cleanup old PDF files and images'',
               next_run_time = None\<rparr>],
      start_calls = 0, shutdown_calls = 0, get_job_fault = None, get_jobs_fault = None\<rparr>"

definition fire0 :: datetime where
  "fire0 = 1260000000"

definition running_scheduler :: scheduler where
  "running_scheduler =
     \<lparr>running = True,
      jobs = [\<lparr>job_id = ''cleanup_old_files'', job_name = ''Cleanup old PDF files and images'',
               next_run_time = Some fire0\<rparr>],
      start_calls = 1, shutdown_calls = 0, get_job_fault = None, get_jobs_fault = None\<rparr>"

definition wk0 :: worker where
  "wk0 = \<lparr>retention_minutes = 10, scheduler = stopped_scheduler\<rparr>"

definition now0 :: datetime where
  "now0 = 1200000000"

definition doc1 :: PDFDocument where
  "doc1 = \<lparr>doc_id = ''d1'', doc_filename = ''one.pdf'', original_filename = ''One.pdf'',
           created_at = 0\<rparr>"

definition doc2 :: PDFDocument where
  "doc2 = \<lparr>doc_id = ''d2'', doc_filename = ''two.pdf'', original_filename = ''Two.pdf'',
           created_at = 1000\<rparr>"

definition img1 :: Image where
  "img1 = \<lparr>image_document_id = ''d1'', image_page_number = 1, image_index = 0,
           image_filename = ''d1_page_1_image_0.png''\<rparr>"

definition world_missing_files :: world where
  "world_missing_files =
     \<lparr>files = {},
      db = \<lparr>pdf_documents = [doc1], text_contents = [], images = [img1], tables = []\<rparr>,
      log_lines = []\<rparr>"

definition world_two_docs :: world where
  "world_two_docs =
     \<lparr>files = {''/srv/uploads/pdfs/one.pdf'', ''/srv/uploads/pdfs/two.pdf''},
      db = \<lparr>pdf_documents = [doc1, doc2], text_contents = [], images = [img1], tables = []\<rparr>,
      log_lines = []\<rparr>"

definition lazy_load_fault :: faults where
  "lazy_load_fault =
     \<lparr>db_compare = compare_instants, connect_fault = None, query_fault = None,
      images_fault = (\<lambda>i. if i = ''d1'' then Some (Failure ''connection lost'') else None),
      remove_fault = (\<lambda>_. None)\<rparr>"

definition remove_fault_one :: faults where
  "remove_fault_one =
     \<lparr>db_compare = compare_instants, connect_fault = None, query_fault = None, images_fault = (\<lambda>_. None),
      remove_fault = (\<lambda>p. if p = ''/srv/uploads/pdfs/one.pdf''
                           then Some (Failure ''Permission denied'') else None)\<rparr>"

definition connect_fault_only :: faults where
  "connect_fault_only =
     \<lparr>db_compare = compare_instants, connect_fault = Some (Failure ''Database error''), query_fault = None,
      images_fault = (\<lambda>_. None), remove_fault = (\<lambda>_. None)\<rparr>"

definition query_fault_only :: faults where
  "query_fault_only =
     \<lparr>db_compare = compare_instants, connect_fault = None, query_fault = Some (Failure ''server closed the connection''),
      images_fault = (\<lambda>_. None), remove_fault = (\<lambda>_. None)\<rparr>"

text \<open>
  A database that compares the stored creation time with the threshold as text, as SQLite
  does: the server default is stored with whole seconds, the threshold is bound with six
  digits of microseconds, and a text that is a proper beginning of another one is the
  smaller. So a creation time is before the threshold when its second is not after the
  threshold's second.
\<close>

definition text_engine :: faults where
  "text_engine = \<lparr>db_compare = (\<lambda>c t. if c div 1000000 \<le> t div 1000000 then Before
                                         else After),
                  connect_fault = None, query_fault = None,
                  images_fault = (\<lambda>_. None), remove_fault = (\<lambda>_. None)\<rparr>"

definition doc_boundary :: PDFDocument where
  "doc_boundary = \<lparr>doc_id = ''b0'', doc_filename = ''b0.pdf'', original_filename = ''B0.pdf'',
                   created_at = 600000000\<rparr>"

definition doc_1ms_older :: PDFDocument where
  "doc_1ms_older = \<lparr>doc_id = ''b1'', doc_filename = ''b1.pdf'', original_filename = ''B1.pdf'',
                    created_at = 599999000\<rparr>"

definition db_boundary :: database where
  "db_boundary = \<lparr>pdf_documents = [doc_boundary, doc_1ms_older], text_contents = [],
                  images = [], tables = []\<rparr>"

definition world_boundary :: world where
  "world_boundary =
     \<lparr>files = {''/srv/uploads/pdfs/b0.pdf'', ''/srv/uploads/pdfs/b1.pdf''},
      db = db_boundary, log_lines = []\<rparr>"

definition world_cutoff :: world where
  "world_cutoff =
     \<lparr>files = {''/srv/uploads/pdfs/b0.pdf''},
      db = \<lparr>pdf_documents = [doc_boundary], text_contents = [], images = [], tables = []\<rparr>,
      log_lines = []\<rparr>"

definition wk_overflow :: worker where
  "wk_overflow = \<lparr>retention_minutes = 6000000000000, scheduler = stopped_scheduler\<rparr>"

definition worker_lookup_raises :: worker where
  "worker_lookup_raises =
     \<lparr>retention_minutes = 10,
      scheduler = \<lparr>running = True, jobs = [], start_calls = 1, shutdown_calls = 0,
                   get_job_fault = Some (Failure ''Unexpected error''),
                   get_jobs_fault = None\<rparr>\<rparr>"

definition worker_not_initialized :: worker where
  "worker_not_initialized =
     \<lparr>retention_minutes = 10,
      scheduler = \<lparr>running = False, jobs = [], start_calls = 0, shutdown_calls = 0,
                   get_job_fault = Some (Failure ''Worker not initialized''),
                   get_jobs_fault = None\<rparr>\<rparr>"

section \<open>Auxiliary facts\<close>

declare str_nat.simps [simp del]

text \<open>
Rendering an integer and reading it back.
\<close>

lemma digit_char_digit: "d < 10 \<Longrightarrow> is_digit (digit_char d) \<and> digit_val (digit_char d) = d"
proof -
  assume "d < 10"
  then have "d \<in> {0,1,2,3,4,5,6,7,8,9}" by auto
  then show ?thesis
    by (auto simp: is_digit_def digit_val_def digit_char_def)
qed

lemma is_digit_props: "is_digit c \<Longrightarrow> \<not> is_space c \<and> c \<noteq> CHR ''_'' \<and> c \<noteq> CHR ''.'' \<and> c \<noteq> CHR ''-'' \<and> c \<noteq> CHR ''+''"
  by (auto simp: is_digit_def is_space_def)

lemma str_nat_digits: "\<forall>c \<in> set (str_nat n). is_digit c"
proof (induction n rule: str_nat.induct)
  case (1 n)
  show ?case
  proof (cases "n < 10")
    case True
    then show ?thesis by (subst str_nat.simps) (simp add: digit_char_digit)
  next
    case False
    with 1 show ?thesis by (subst str_nat.simps) (simp add: digit_char_digit)
  qed
qed

lemma str_nat_nonempty: "str_nat n \<noteq> []"
  by (subst str_nat.simps) simp

lemma parse_digits_append:
  "\<forall>c \<in> set s. is_digit c \<Longrightarrow> is_digit d \<Longrightarrow>
   parse_digits acc s = Some m \<Longrightarrow> parse_digits acc (s @ [d]) = Some (10 * m + digit_val d)"
  by (induction s arbitrary: acc) auto

lemma parse_nat_snoc:
  "s \<noteq> [] \<Longrightarrow> \<forall>c \<in> set s. is_digit c \<Longrightarrow> is_digit d \<Longrightarrow>
   parse_nat s = Some m \<Longrightarrow> parse_nat (s @ [d]) = Some (10 * m + digit_val d)"
  by (cases s) (auto simp: parse_nat_def parse_digits_append split: if_splits)

lemma parse_nat_str_nat: "parse_nat (str_nat n) = Some n"
proof (induction n rule: str_nat.induct)
  case (1 n)
  show ?case
  proof (cases "n < 10")
    case True
    then show ?thesis
      by (subst str_nat.simps) (simp add: parse_nat_def digit_char_digit)
  next
    case False
    then have ih: "parse_nat (str_nat (n div 10)) = Some (n div 10)" using 1 by simp
    have "parse_nat (str_nat (n div 10) @ [digit_char (n mod 10)])
          = Some (10 * (n div 10) + digit_val (digit_char (n mod 10)))"
      by (rule parse_nat_snoc[OF str_nat_nonempty str_nat_digits _ ih])
         (simp add: digit_char_digit)
    then show ?thesis using False
      by (subst str_nat.simps) (simp add: digit_char_digit)
  qed
qed

lemma dropWhile_id: "\<forall>c \<in> set s. \<not> P c \<Longrightarrow> dropWhile P s = s"
  by (cases s) auto

lemma py_strip_no_space: "\<forall>c \<in> set s. \<not> is_space c \<Longrightarrow> py_strip s = s"
  by (simp add: py_strip_def dropWhile_id is_int_space_def is_space_def)

lemma py_str_chars:
  "c \<in> set (py_str i) \<Longrightarrow> \<not> is_space c \<and> c \<noteq> CHR ''_'' \<and> c \<noteq> CHR ''.''"
  using str_nat_digits is_digit_props
  by (auto simp: py_str_def is_space_def split: if_splits)

lemma py_str_nonempty: "py_str i \<noteq> []"
  by (simp add: py_str_def str_nat_nonempty)

lemma py_int_py_str: "py_int (py_str i) = Inr i"
proof -
  have s: "py_strip (py_str i) = py_str i"
    using py_str_chars by (intro py_strip_no_space) blast
  show ?thesis
  proof (cases "i < 0")
    case True
    then show ?thesis
      by (simp add: py_int_def s) (simp add: py_str_def parse_nat_str_nat)
  next
    case False
    obtain c cs where cs: "str_nat (nat i) = c # cs"
      using str_nat_nonempty by (cases "str_nat (nat i)") auto
    have "is_digit c" using str_nat_digits[of "nat i"] cs by simp
    then have "c \<noteq> CHR ''-''" "c \<noteq> CHR ''+''" using is_digit_props by blast+
    moreover have "parse_nat (c # cs) = Some (nat i)"
      using parse_nat_str_nat[of "nat i"] cs by simp
    ultimately show ?thesis using False
      by (simp add: py_int_def s) (simp add: py_str_def cs)
  qed
qed

text \<open>
Splitting at a separator.
\<close>

lemma split_sep_cut:
  "sep \<notin> set t \<Longrightarrow> split_sep sep cur (t @ sep # rest) = (cur @ t) # split_sep sep [] rest"
  by (induction t arbitrary: cur) auto

lemma split_sep_last: "sep \<notin> set t \<Longrightarrow> split_sep sep cur t = [cur @ t]"
  by (induction t arbitrary: cur) auto

lemma split_sep_head:
  "sep \<notin> set t \<Longrightarrow> \<exists>ps. split_sep sep cur (t @ sep # rest) = (cur @ t) # ps"
  by (simp add: split_sep_cut)

lemma py_str_no_underscore: "CHR ''_'' \<notin> set (py_str i)"
  using py_str_chars by blast

lemma py_str_no_dot: "CHR ''.'' \<notin> set (py_str i)"
  using py_str_chars by blast

lemma split_generated_name:
  assumes "CHR ''_'' \<notin> set document_id" and "CHR ''_'' \<notin> set ext"
  shows "py_split_on CHR ''_'' (generate_image_filename document_id n i ext)
         = [document_id, ''page'', py_str n, ''image'', py_str i @ ''.'' @ ext]"
proof -
  have tail: "CHR ''_'' \<notin> set (py_str i @ ''.'' @ ext)"
    using assms(2) py_str_no_underscore by simp
  have "generate_image_filename document_id n i ext
        = document_id @ CHR ''_'' # (''page'' @ CHR ''_'' # (py_str n @ CHR ''_'' #
            (''image'' @ CHR ''_'' # (py_str i @ ''.'' @ ext))))"
    by (simp add: generate_image_filename_def)
  then show ?thesis
    using assms(1) tail
    by (simp add: py_split_on_def split_sep_cut split_sep_last py_str_no_underscore)
qed

lemma split_dot_head: "\<exists>ps. py_split_on CHR ''.'' (py_str i @ CHR ''.'' # ext) = py_str i # ps"
  using split_sep_head[of "CHR ''.''" "py_str i" "[]" ext] py_str_no_dot
  by (simp add: py_split_on_def)

text \<open>
Page labels and the loop of the bulk insert.
\<close>

lemma split_ws_token:
  "\<forall>c \<in> set t. \<not> is_space c \<Longrightarrow> split_ws cur t = (if cur @ t = [] then [] else [cur @ t])"
  by (induction t arbitrary: cur) auto

lemma page_label_parsed: "page_number_of_key (''Page '' @ py_str n) = Inr n"
proof -
  have "\<forall>c \<in> set (py_str n). \<not> is_space c" using py_str_chars by blast
  then have "split_ws [] (py_str n) = [py_str n]"
    by (simp add: split_ws_token py_str_nonempty)
  then have "py_split (''Page '' @ py_str n) = [''Page'', py_str n]"
    by (simp add: py_split_def is_space_def)
  then show ?thesis
    by (simp add: page_number_of_key_def py_index_def py_int_py_str)
qed

lemma add_text_rows_store: "store (snd (add_text_rows document_id text_data acc s)) = store s"
  by (induction document_id text_data acc s rule: add_text_rows.induct)
     (auto simp: db_add_def Let_def split: sum.splits)

lemma add_text_rows_malformed:
  "\<exists>kc \<in> set text_data. isl (page_number_of_key (fst kc)) \<Longrightarrow>
   isl (fst (add_text_rows document_id text_data acc s))"
  by (induction document_id text_data acc s rule: add_text_rows.induct)
     (auto simp: Let_def split: sum.splits)

lemma add_text_rows_wellformed:
  "\<forall>kc \<in> set text_data. \<not> isl (page_number_of_key (fst kc)) \<Longrightarrow>
   add_text_rows document_id text_data acc s
     = (Inr (acc @ map (text_row document_id) text_data),
        s\<lparr>pending := pending s @ map TextRow (map (text_row document_id) text_data)\<rparr>)"
  by (induction document_id text_data acc s rule: add_text_rows.induct)
     (auto simp: Let_def db_add_def text_row_def split: sum.splits)

lemma save_text_content_failure_store:
  "isl (fst (save_text_content s document_id text_data)) \<Longrightarrow>
   store (snd (save_text_content s document_id text_data)) = store s"
  using add_text_rows_store[of document_id text_data "[]" s]
  by (auto simp: save_text_content_def db_commit_def split: prod.splits sum.splits option.splits)

lemma save_text_content_malformed:
  assumes "\<exists>kc \<in> set text_data. isl (page_number_of_key (fst kc))"
  shows "isl (fst (save_text_content s document_id text_data))"
  using add_text_rows_malformed[OF assms, of document_id "[]" s]
  by (auto simp: save_text_content_def split: prod.splits sum.splits)

lemma save_text_content_success:
  assumes "\<forall>kc \<in> set text_data. \<not> isl (page_number_of_key (fst kc))"
      and "commit_fault s = None"
  shows "save_text_content s document_id text_data
         = (Inr (map (text_row document_id) text_data),
            s\<lparr>store := fold insert_row
                          (pending s @ map TextRow (map (text_row document_id) text_data))
                          (store s),
              pending := []\<rparr>)"
  using assms(2)
  by (simp add: save_text_content_def add_text_rows_wellformed[OF assms(1)] db_commit_def)

text \<open>
The ordering of the list query.
\<close>

lemma order_by_sorted:
  "sorted_wrt (\<lambda>a b. created_at b \<le> created_at a) (order_by_created_at_desc ds)"
proof -
  have "sorted (map (\<lambda>d. - created_at d) (sort_key (\<lambda>d. - created_at d) ds))"
    by (rule sorted_sort_key)
  then show ?thesis
    by (simp add: order_by_created_at_desc_def sorted_map)
qed

lemma order_by_mset: "mset (order_by_created_at_desc ds) = mset ds"
  by (simp add: order_by_created_at_desc_def)

lemma three_docs_page: "list_documents three_docs 1 1 =
     [\<lparr>doc_id = ''c'', doc_filename = ''c.pdf'', original_filename = ''C.pdf'',
       created_at = 200\<rparr>]"
  by (simp add: list_documents_def three_docs_def order_by_created_at_desc_def)

lemma key_ok_1: "page_number_of_key ''Page 1'' = Inr 1" by code_simp

lemma key_ok_2: "page_number_of_key ''Page 2'' = Inr 2" by code_simp

lemma key_bad: "page_number_of_key ''Page two'' = Inl ValueError" by code_simp

lemma key_short: "page_number_of_key ''Page'' = Inl IndexError" by code_simp

text \<open>
The sweep leaves the database as it is.
\<close>

lemma delete_pdf_file_db [simp]: "db (delete_pdf_file f p w) = db w"
  by (auto simp: delete_pdf_file_def os_remove_def logger_def split: option.splits sum.splits)

lemma delete_image_file_db [simp]: "db (delete_image_file f p w) = db w"
  by (auto simp: delete_image_file_def os_remove_def logger_def split: option.splits sum.splits)

lemma delete_image_files_db [simp]: "db (delete_image_files f st imgs w) = db w"
  by (induction imgs arbitrary: w) auto

lemma cleanup_document_db [simp]: "db (snd (cleanup_document f st d w)) = db w"
  by (auto simp: cleanup_document_def Let_def logger_def split: sum.splits)

lemma cleanup_documents_db [simp]: "db (snd (cleanup_documents f st ds w)) = db w"
proof (induction ds arbitrary: w)
  case Nil
  show ?case by simp
next
  case (Cons d ds)
  have "db (snd (cleanup_document f st d w)) = db w" by simp
  then show ?case
    using Cons.IH[of "snd (cleanup_document f st d w)"]
    by (cases "cleanup_document f st d w") (auto split: option.splits)
qed

lemma logger_db [simp]: "db (logger e w) = db w"
  by (simp add: logger_def)

lemma logger_files [simp]: "files (logger e w) = files w"
  by (simp add: logger_def)

lemma cleanup_documents_db_result:
  "cleanup_documents f st ds w = (r, w') \<Longrightarrow> db w' = db w"
  using cleanup_documents_db[of f st ds w] by simp

lemma process_old_documents_db [simp]: "db (snd (process_old_documents f st ds w)) = db w"
  by (auto simp: process_old_documents_def Let_def dest!: cleanup_documents_db_result
           split: prod.splits option.splits)

lemma cleanup_body_db: "db (snd (cleanup_body f st now wk w)) = db w"
  by (simp add: cleanup_body_def Let_def split: option.splits sum.splits)

lemma cleanup_old_files_db: "db (snd (cleanup_old_files f st now wk w)) = db w"
  using cleanup_body_db[of f st now wk w]
  by (auto simp: cleanup_old_files_def logger_def split: prod.splits option.splits)

lemma cleanup_old_files_returns: "fst (cleanup_old_files f st now wk w) = Inr ()"
  by (auto simp: cleanup_old_files_def split: prod.splits option.splits)

text \<open>
The sweep creates no file.
\<close>

lemma delete_pdf_file_files: "files (delete_pdf_file f p w) \<subseteq> files w"
  by (auto simp: delete_pdf_file_def os_remove_def split: option.splits sum.splits if_splits)

lemma delete_image_file_files: "files (delete_image_file f p w) \<subseteq> files w"
  by (auto simp: delete_image_file_def os_remove_def split: option.splits sum.splits if_splits)

lemma delete_image_files_files: "files (delete_image_files f st imgs w) \<subseteq> files w"
proof (induction imgs arbitrary: w)
  case Nil
  show ?case by simp
next
  case (Cons i imgs)
  show ?case using Cons.IH delete_image_file_files by (simp, blast)
qed

lemma cleanup_document_files: "files (snd (cleanup_document f st d w)) \<subseteq> files w"
  using delete_pdf_file_files delete_image_files_files
  by (auto simp: cleanup_document_def Let_def split: sum.splits dest!: subsetD) fastforce+

lemma cleanup_documents_files: "files (snd (cleanup_documents f st ds w)) \<subseteq> files w"
proof (induction ds arbitrary: w)
  case Nil
  show ?case by simp
next
  case (Cons d ds)
  obtain r w1 where c: "cleanup_document f st d w = (r, w1)" by fastforce
  have s1: "files w1 \<subseteq> files w" using cleanup_document_files[of f st d w] c by simp
  show ?case
  proof (cases r)
    case None
    then show ?thesis using Cons.IH[of w1] s1 c by auto
  next
    case (Some e)
    then show ?thesis using s1 c by simp
  qed
qed

text \<open>
One deletion attempt removes a file whose removal does not raise.
\<close>

lemma delete_pdf_file_gone:
  "remove_fault f p = None \<Longrightarrow> p \<notin> files (delete_pdf_file f p w)"
  by (simp add: delete_pdf_file_def os_remove_def)

lemma delete_image_file_gone:
  "remove_fault f p = None \<Longrightarrow> p \<notin> files (delete_image_file f p w)"
  by (simp add: delete_image_file_def os_remove_def)

lemma delete_image_files_gone:
  "i \<in> set imgs \<Longrightarrow> remove_fault f (image_path_of st i) = None \<Longrightarrow>
   image_path_of st i \<notin> files (delete_image_files f st imgs w)"
proof (induction imgs arbitrary: w)
  case Nil
  then show ?case by simp
next
  case (Cons a imgs)
  show ?case
  proof (cases "i = a")
    case True
    have "image_path_of st i \<notin> files (delete_image_file f (image_path_of st i) w)"
      by (rule delete_image_file_gone[OF Cons.prems(2)])
    then show ?thesis
      using True delete_image_files_files[of f st imgs "delete_image_file f (image_path_of st a) w"]
      by (auto simp: image_path_of_def)
  next
    case False
    then have "i \<in> set imgs" using Cons.prems(1) by simp
    then show ?thesis using Cons.IH Cons.prems(2) by simp
  qed
qed

lemma swept_mono: "swept f st D w d \<Longrightarrow> files w' \<subseteq> files w \<Longrightarrow> swept f st D w' d"
  by (auto simp: swept_def)

lemma cleanup_document_swept:
  assumes "images_fault f (doc_id d) = None"
  shows "fst (cleanup_document f st d w) = None
         \<and> swept f st (db w) (snd (cleanup_document f st d w)) d"
proof -
  define w2 where "w2 = delete_pdf_file f (pdf_path_of st d)
                          (logger (LogInfo (''Cleaning up document: '' @ doc_id d)) w)"
  have dbw2: "db w2 = db w" by (simp add: w2_def)
  have res: "cleanup_document f st d w = (None, delete_image_files f st (images_of (db w) d) w2)"
    using assms
    by (simp add: cleanup_document_def Let_def document_images_def w2_def pdf_path_of_def
                  images_of_def)
  have pdf: "remove_fault f (pdf_path_of st d) = None \<Longrightarrow>
             pdf_path_of st d \<notin> files (delete_image_files f st (images_of (db w) d) w2)"
    using delete_pdf_file_gone[of f "pdf_path_of st d"] delete_image_files_files[of f st _ w2]
    by (auto simp: w2_def)
  show ?thesis
    using pdf delete_image_files_gone by (simp add: res swept_def)
qed

lemma process_old_documents_files:
  "files (snd (process_old_documents f st ds w)) \<subseteq> files w"
proof (cases "ds = []")
  case True
  then show ?thesis by (simp add: process_old_documents_def)
next
  case False
  define w2 where "w2 = logger (LogInfo (''Found '' @ py_str (int (length ds))
                                    @ '' old documents to clean up'')) w"
  obtain r w3 where c: "cleanup_documents f st ds w2 = (r, w3)" by fastforce
  have "files w3 \<subseteq> files w2" using cleanup_documents_files[of f st ds w2] c by simp
  then have s: "files w3 \<subseteq> files w" by (simp add: w2_def)
  have "process_old_documents f st ds w
          = (case r of Some e \<Rightarrow> (Some e, w3)
             | None \<Rightarrow> (None, logger (LogInfo ''File cleanup task completed'') w3))"
    using False c unfolding process_old_documents_def Let_def w2_def
    by (simp split: option.splits)
  then show ?thesis using s by (cases r) simp_all
qed

lemma cleanup_body_files: "files (snd (cleanup_body f st now wk w)) \<subseteq> files w"
  using process_old_documents_files[of f st _ "logger (LogInfo ''Running file cleanup task'') w"]
  by (simp add: cleanup_body_def Let_def split: option.splits sum.splits)

lemma cleanup_old_files_files: "files (snd (cleanup_old_files f st now wk w)) \<subseteq> files w"
proof -
  obtain r w' where b: "cleanup_body f st now wk w = (r, w')" by fastforce
  have "files w' \<subseteq> files w" using cleanup_body_files[of f st now wk w] b by simp
  then show ?thesis by (cases r) (simp_all add: cleanup_old_files_def b)
qed

text \<open>
The ids of the documents whose processing was begun, as the log shows them.
\<close>

lemma cleaned_ids_append: "cleaned_ids (xs @ ys) = cleaned_ids xs @ cleaned_ids ys"
  by (induction xs rule: cleaned_ids.induct) auto

lemma logger_log [simp]: "log_lines (logger e w) = log_lines w @ [e]"
  by (simp add: logger_def)

lemma cleaned_ids_begin [simp]:
  "cleaned_ids [LogInfo (''Cleaning up document: '' @ i)] = [i]"
  by simp

lemma delete_pdf_file_ids:
  "cleaned_ids (log_lines (delete_pdf_file f p w)) = cleaned_ids (log_lines w)"
  by (auto simp: delete_pdf_file_def os_remove_def cleaned_ids_append
           split: option.splits)

lemma delete_image_file_ids:
  "cleaned_ids (log_lines (delete_image_file f p w)) = cleaned_ids (log_lines w)"
  by (auto simp: delete_image_file_def os_remove_def cleaned_ids_append
           split: option.splits)

lemma delete_image_files_ids:
  "cleaned_ids (log_lines (delete_image_files f st imgs w)) = cleaned_ids (log_lines w)"
  by (induction imgs arbitrary: w) (simp_all add: delete_image_file_ids)

lemma cleanup_document_ids:
  "cleaned_ids (log_lines (snd (cleanup_document f st d w)))
     = cleaned_ids (log_lines w) @ [doc_id d]"
  by (auto simp: cleanup_document_def Let_def delete_pdf_file_ids delete_image_files_ids
                 cleaned_ids_append split: sum.splits)

text \<open>
What every step of the sweep carries over: the database, no new file, the files whose removal raises, and the log written so far.
\<close>

lemma carried_refl: "carried f w w"
  unfolding carried_def by blast

lemma carried_trans:
  assumes a: "carried f w0 w1" and b: "carried f w1 w2"
  shows "carried f w0 w2"
proof -
  have l: "set (log_lines w1) \<subseteq> set (log_lines w2)" using b unfolding carried_def by blast
  have acc: "q \<in> files w2
           \<or> LogInfo (''Deleted PDF file: '' @ q) \<in> set (log_lines w2)
           \<or> LogInfo (''Deleted image file: '' @ q) \<in> set (log_lines w2)"
    if q: "q \<in> files w0" for q
  proof -
    have "q \<in> files w1
           \<or> LogInfo (''Deleted PDF file: '' @ q) \<in> set (log_lines w1)
           \<or> LogInfo (''Deleted image file: '' @ q) \<in> set (log_lines w1)"
      using a q unfolding carried_def by blast
    moreover have "q \<in> files w1 \<Longrightarrow> ?thesis" using b unfolding carried_def by blast
    ultimately show ?thesis using l by blast
  qed
  have rest: "db w2 = db w0 \<and> files w2 \<subseteq> files w0
     \<and> (\<forall>q. remove_fault f q \<noteq> None \<longrightarrow> q \<in> files w0 \<longrightarrow> q \<in> files w2)
     \<and> set (log_lines w0) \<subseteq> set (log_lines w2)"
    using a b unfolding carried_def by (intro conjI) (simp, blast, blast, blast)
  show ?thesis unfolding carried_def using rest acc by blast
qed

lemma carried_logger: "carried f w (logger e w)"
  unfolding carried_def by (simp add: logger_def) blast

lemma carried_removed:
  assumes "remove_fault f p = None"
  shows "carried f w (logger (LogInfo (''Deleted PDF file: '' @ p)) (w\<lparr>files := files w - {p}\<rparr>))"
    and "carried f w (logger (LogInfo (''Deleted image file: '' @ p)) (w\<lparr>files := files w - {p}\<rparr>))"
  using assms unfolding carried_def by (auto simp: logger_def)

lemma carried_delete_pdf_file: "carried f w (delete_pdf_file f p w)"
proof (cases "p \<in> files w \<and> remove_fault f p = None")
  case True
  then have "delete_pdf_file f p w
             = logger (LogInfo (''Deleted PDF file: '' @ p)) (w\<lparr>files := files w - {p}\<rparr>)"
    by (simp add: delete_pdf_file_def os_remove_def)
  then show ?thesis using carried_removed(1) True by simp
next
  case False
  then have "\<exists>e. delete_pdf_file f p w = logger e w"
    by (auto simp: delete_pdf_file_def os_remove_def split: option.splits)
  then show ?thesis using carried_logger by auto
qed

lemma carried_delete_image_file: "carried f w (delete_image_file f p w)"
proof (cases "p \<in> files w \<and> remove_fault f p = None")
  case True
  then have "delete_image_file f p w
             = logger (LogInfo (''Deleted image file: '' @ p)) (w\<lparr>files := files w - {p}\<rparr>)"
    by (simp add: delete_image_file_def os_remove_def)
  then show ?thesis using carried_removed(2) True by simp
next
  case False
  then have "\<exists>e. delete_image_file f p w = logger e w"
    by (auto simp: delete_image_file_def os_remove_def split: option.splits)
  then show ?thesis using carried_logger by auto
qed

lemma carried_db: "carried f w0 w \<Longrightarrow> db w = db w0"
  unfolding carried_def by blast

lemma carried_files: "carried f w0 w \<Longrightarrow> files w \<subseteq> files w0"
  unfolding carried_def by blast

lemma carried_log: "carried f w0 w \<Longrightarrow> set (log_lines w0) \<subseteq> set (log_lines w)"
  unfolding carried_def by blast

lemma carried_persist:
  "carried f w0 w \<Longrightarrow> remove_fault f q = Some e \<Longrightarrow> q \<in> files w0 \<Longrightarrow> q \<in> files w"
  unfolding carried_def by auto

lemma carried_accounted:
  "carried f w0 w \<Longrightarrow> q \<in> files w0 \<Longrightarrow>
   q \<in> files w
   \<or> LogInfo (''Deleted PDF file: '' @ q) \<in> set (log_lines w)
   \<or> LogInfo (''Deleted image file: '' @ q) \<in> set (log_lines w)"
  unfolding carried_def by blast

lemma carried_delete_image_files: "carried f w (delete_image_files f st imgs w)"
proof (induction imgs arbitrary: w)
  case Nil
  show ?case by (simp add: carried_refl)
next
  case (Cons i imgs)
  show ?case
    using carried_trans[OF carried_delete_image_file Cons.IH] by simp
qed

lemma carried_cleanup_document: "carried f w (snd (cleanup_document f st d w))"
proof -
  define w1 where "w1 = logger (LogInfo (''Cleaning up document: '' @ doc_id d)) w"
  define w2 where "w2 = delete_pdf_file f (os_path_join (UPLOAD_FOLDER st) (doc_filename d)) w1"
  have c2: "carried f w w2"
    unfolding w2_def w1_def by (rule carried_trans[OF carried_logger carried_delete_pdf_file])
  have "snd (cleanup_document f st d w) = w2
        \<or> (\<exists>imgs. snd (cleanup_document f st d w) = delete_image_files f st imgs w2)"
    by (auto simp: cleanup_document_def Let_def w1_def w2_def split: sum.splits)
  then show ?thesis
    using c2 carried_trans[OF c2 carried_delete_image_files] by auto
qed

lemma carried_cleanup_documents: "carried f w (snd (cleanup_documents f st ds w))"
proof (induction ds arbitrary: w)
  case Nil
  show ?case by (simp add: carried_refl)
next
  case (Cons d ds)
  obtain r w1 where c: "cleanup_document f st d w = (r, w1)" by fastforce
  have c1: "carried f w w1" using carried_cleanup_document[of f w st d] c by simp
  show ?case
  proof (cases r)
    case None
    then show ?thesis using carried_trans[OF c1 Cons.IH[of w1]] c by simp
  next
    case (Some e)
    then show ?thesis using c1 c by simp
  qed
qed

text \<open>
A file that no processed document names is kept.
\<close>

lemma delete_pdf_file_other:
  "q \<noteq> p \<Longrightarrow> q \<in> files w \<Longrightarrow> q \<in> files (delete_pdf_file f p w)"
  by (auto simp: delete_pdf_file_def os_remove_def split: option.splits)

lemma delete_image_file_other:
  "q \<noteq> p \<Longrightarrow> q \<in> files w \<Longrightarrow> q \<in> files (delete_image_file f p w)"
  by (auto simp: delete_image_file_def os_remove_def split: option.splits)

lemma delete_image_files_other:
  "q \<notin> image_path_of st ` set imgs \<Longrightarrow> q \<in> files w \<Longrightarrow>
   q \<in> files (delete_image_files f st imgs w)"
proof (induction imgs arbitrary: w)
  case Nil
  then show ?case by simp
next
  case (Cons i imgs)
  have "q \<noteq> image_path_of st i" using Cons.prems(1) by auto
  then have "q \<in> files (delete_image_file f (image_path_of st i) w)"
    using Cons.prems(2) by (rule delete_image_file_other)
  moreover have "q \<notin> image_path_of st ` set imgs" using Cons.prems(1) by auto
  ultimately show ?case using Cons.IH by (simp add: image_path_of_def)
qed

lemma cleanup_document_other:
  assumes "q \<notin> paths_of st (db w) d" and "q \<in> files w"
  shows "q \<in> files (snd (cleanup_document f st d w))"
proof -
  define w2 where "w2 = delete_pdf_file f (pdf_path_of st d)
                          (logger (LogInfo (''Cleaning up document: '' @ doc_id d)) w)"
  have q2: "q \<in> files w2"
    using assms unfolding w2_def paths_of_def
    by (intro delete_pdf_file_other) auto
  have qi: "q \<in> files (delete_image_files f st (images_of (db w) d) w2)"
    using assms(1) q2 unfolding paths_of_def
    by (intro delete_image_files_other) auto
  have "snd (cleanup_document f st d w) = w2
        \<or> snd (cleanup_document f st d w) = delete_image_files f st (images_of (db w) d) w2"
    by (auto simp: cleanup_document_def Let_def w2_def pdf_path_of_def document_images_def
                   images_of_def split: sum.splits option.splits)
  then show ?thesis using q2 qi by auto
qed

lemma cleanup_documents_other:
  assumes "\<forall>d \<in> set ds. q \<notin> paths_of st (db w) d" and "q \<in> files w"
  shows "q \<in> files (snd (cleanup_documents f st ds w))"
  using assms
proof (induction ds arbitrary: w)
  case Nil
  then show ?case by simp
next
  case (Cons d ds)
  obtain r w1 where c: "cleanup_document f st d w = (r, w1)" by fastforce
  have q1: "q \<in> files w1"
    using cleanup_document_other[of q st w d f] Cons.prems c by simp
  have d1: "db w1 = db w" using cleanup_document_db[of f st d w] c by simp
  show ?case
  proof (cases r)
    case None
    then show ?thesis using Cons.IH[of w1] Cons.prems q1 d1 c by simp
  next
    case (Some e)
    then show ?thesis using q1 c by simp
  qed
qed

text \<open>
A missing file and a failing removal are logged.
\<close>

lemma report_pdf:
  assumes "carried f w0 w"
  shows "(p \<notin> files w0 \<longrightarrow>
            LogWarning (''PDF file not found for deletion: '' @ p)
              \<in> set (log_lines (delete_pdf_file f p w)))
         \<and> (p \<in> files w0 \<and> remove_fault f p = Some e \<longrightarrow>
            LogError (''Error deleting PDF file '' @ p @ '': '') e
              \<in> set (log_lines (delete_pdf_file f p w)))"
proof -
  have a: "p \<notin> files w0 \<Longrightarrow> p \<notin> files w" using carried_files[OF assms] by blast
  have b: "p \<in> files w0 \<Longrightarrow> remove_fault f p = Some e \<Longrightarrow> p \<in> files w"
    using carried_persist[OF assms] by blast
  show ?thesis
    using a b by (auto simp: delete_pdf_file_def os_remove_def)
qed

lemma report_image:
  assumes "carried f w0 w"
  shows "(p \<notin> files w0 \<longrightarrow>
            LogWarning (''Image file not found for deletion: '' @ p)
              \<in> set (log_lines (delete_image_file f p w)))
         \<and> (p \<in> files w0 \<and> remove_fault f p = Some e \<longrightarrow>
            LogError (''Error deleting image file '' @ p @ '': '') e
              \<in> set (log_lines (delete_image_file f p w)))"
proof -
  have a: "p \<notin> files w0 \<Longrightarrow> p \<notin> files w" using carried_files[OF assms] by blast
  have b: "p \<in> files w0 \<Longrightarrow> remove_fault f p = Some e \<Longrightarrow> p \<in> files w"
    using carried_persist[OF assms] by blast
  show ?thesis
    using a b by (auto simp: delete_image_file_def os_remove_def)
qed

lemma report_images:
  assumes "carried f w0 w" and "i \<in> set imgs"
  shows "(image_path_of st i \<notin> files w0 \<longrightarrow>
            LogWarning (''Image file not found for deletion: '' @ image_path_of st i)
              \<in> set (log_lines (delete_image_files f st imgs w)))
         \<and> (image_path_of st i \<in> files w0 \<and> remove_fault f (image_path_of st i) = Some e \<longrightarrow>
            LogError (''Error deleting image file '' @ image_path_of st i @ '': '') e
              \<in> set (log_lines (delete_image_files f st imgs w)))"
  using assms
proof (induction imgs arbitrary: w)
  case Nil
  then show ?case by simp
next
  case (Cons a imgs)
  define w1 where "w1 = delete_image_file f (image_path_of st a) w"
  have c1: "carried f w0 w1"
    unfolding w1_def by (rule carried_trans[OF Cons.prems(1) carried_delete_image_file])
  have step: "delete_image_files f st (a # imgs) w = delete_image_files f st imgs w1"
    by (simp add: w1_def image_path_of_def)
  show ?case
  proof (cases "i = a")
    case True
    have keep: "set (log_lines w1) \<subseteq> set (log_lines (delete_image_files f st imgs w1))"
      by (rule carried_log[OF carried_delete_image_files])
    show ?thesis
      using report_image[OF Cons.prems(1), of "image_path_of st a" e] keep True
      unfolding step w1_def by blast
  next
    case False
    then have "i \<in> set imgs" using Cons.prems(2) by simp
    then show ?thesis using Cons.IH[OF c1] unfolding step by blast
  qed
qed

lemma reported_mono:
  "reported f st w0 w1 d \<Longrightarrow> set (log_lines w1) \<subseteq> set (log_lines w2) \<Longrightarrow>
   reported f st w0 w2 d"
  unfolding reported_def by blast

lemma cleanup_document_result:
  "cleanup_document f st d w =
     (let w2 = delete_pdf_file f (pdf_path_of st d)
                 (logger (LogInfo (''Cleaning up document: '' @ doc_id d)) w)
      in case images_fault f (doc_id d) of
           Some e \<Rightarrow> (Some e, w2)
         | None \<Rightarrow> (None, delete_image_files f st (images_of (db w) d) w2))"
  by (simp add: cleanup_document_def Let_def document_images_def pdf_path_of_def images_of_def
           split: option.splits)

lemma cleanup_document_fault:
  "images_fault f (doc_id d) = Some e \<Longrightarrow> fst (cleanup_document f st d w) = Some e"
  by (simp add: cleanup_document_result Let_def)

lemma cleanup_document_reported:
  assumes c: "carried f w0 w" and l: "images_fault f (doc_id d) = None"
  shows "reported f st w0 (snd (cleanup_document f st d w)) d"
proof -
  define w1 where "w1 = logger (LogInfo (''Cleaning up document: '' @ doc_id d)) w"
  define w2 where "w2 = delete_pdf_file f (pdf_path_of st d) w1"
  define w3 where "w3 = delete_image_files f st (images_of (db w) d) w2"
  have res: "snd (cleanup_document f st d w) = w3"
    using l by (simp add: cleanup_document_result Let_def w1_def w2_def w3_def)
  have c1: "carried f w0 w1" unfolding w1_def by (rule carried_trans[OF c carried_logger])
  have c2: "carried f w0 w2" unfolding w2_def by (rule carried_trans[OF c1 carried_delete_pdf_file])
  have keep: "set (log_lines w2) \<subseteq> set (log_lines w3)"
    unfolding w3_def by (rule carried_log[OF carried_delete_image_files])
  have dbs: "db w = db w0" by (rule carried_db[OF c])
  have pdf: "(pdf_path_of st d \<notin> files w0 \<longrightarrow>
            LogWarning (''PDF file not found for deletion: '' @ pdf_path_of st d)
              \<in> set (log_lines w3))
         \<and> (pdf_path_of st d \<in> files w0 \<and> remove_fault f (pdf_path_of st d) = Some e \<longrightarrow>
            LogError (''Error deleting PDF file '' @ pdf_path_of st d @ '': '') e
              \<in> set (log_lines w3))" for e
    using report_pdf[OF c1, of "pdf_path_of st d" e] keep unfolding w2_def by blast
  have img: "i \<in> set (images_of (db w0) d) \<Longrightarrow>
         (image_path_of st i \<notin> files w0 \<longrightarrow>
            LogWarning (''Image file not found for deletion: '' @ image_path_of st i)
              \<in> set (log_lines w3))
         \<and> (image_path_of st i \<in> files w0 \<and> remove_fault f (image_path_of st i) = Some e \<longrightarrow>
            LogError (''Error deleting image file '' @ image_path_of st i @ '': '') e
              \<in> set (log_lines w3))" for i e
    using report_images[OF c2, of i "images_of (db w) d" st e] unfolding w3_def dbs by blast
  show ?thesis unfolding res reported_def using pdf img by blast
qed

lemma cleanup_documents_all:
  assumes "carried f w0 w" and "\<forall>d \<in> set ds. images_fault f (doc_id d) = None"
  shows "fst (cleanup_documents f st ds w) = None
         \<and> cleaned_ids (log_lines (snd (cleanup_documents f st ds w)))
             = cleaned_ids (log_lines w) @ map doc_id ds
         \<and> (\<forall>d \<in> set ds. swept f st (db w0) (snd (cleanup_documents f st ds w)) d
                        \<and> reported f st w0 (snd (cleanup_documents f st ds w)) d)"
  using assms
proof (induction ds arbitrary: w)
  case Nil
  show ?case by simp
next
  case (Cons a ds)
  have la: "images_fault f (doc_id a) = None" using Cons.prems(2) by simp
  obtain w1 where c: "cleanup_document f st a w = (None, w1)"
    using cleanup_document_swept[OF la, of st w] by (cases "cleanup_document f st a w") auto
  have dbs: "db w = db w0" by (rule carried_db[OF Cons.prems(1)])
  have c1: "carried f w0 w1"
    using carried_trans[OF Cons.prems(1) carried_cleanup_document[of f w st a]] c by simp
  have sa: "swept f st (db w0) w1 a"
    using cleanup_document_swept[OF la, of st w] c dbs by simp
  have ra: "reported f st w0 w1 a"
    using cleanup_document_reported[OF Cons.prems(1) la, of st] c by simp
  have ia: "cleaned_ids (log_lines w1) = cleaned_ids (log_lines w) @ [doc_id a]"
    using cleanup_document_ids[of f st a w] c by simp
  have ih: "fst (cleanup_documents f st ds w1) = None
         \<and> cleaned_ids (log_lines (snd (cleanup_documents f st ds w1)))
             = cleaned_ids (log_lines w1) @ map doc_id ds
         \<and> (\<forall>d \<in> set ds. swept f st (db w0) (snd (cleanup_documents f st ds w1)) d
                        \<and> reported f st w0 (snd (cleanup_documents f st ds w1)) d)"
    using Cons.IH[OF c1] Cons.prems(2) by simp
  have cl: "carried f w1 (snd (cleanup_documents f st ds w1))"
    by (rule carried_cleanup_documents)
  have sa': "swept f st (db w0) (snd (cleanup_documents f st ds w1)) a"
    by (rule swept_mono[OF sa carried_files[OF cl]])
  have ra': "reported f st w0 (snd (cleanup_documents f st ds w1)) a"
    by (rule reported_mono[OF ra carried_log[OF cl]])
  show ?case using ih sa' ra' ia c by simp
qed

lemma cleanup_documents_stopped:
  assumes "carried f w0 w" and "\<forall>x \<in> set ds1. images_fault f (doc_id x) = None"
      and "images_fault f (doc_id d) = Some e"
  shows "fst (cleanup_documents f st (ds1 @ d # ds2) w) = Some e
         \<and> cleaned_ids (log_lines (snd (cleanup_documents f st (ds1 @ d # ds2) w)))
             = cleaned_ids (log_lines w) @ map doc_id (ds1 @ [d])
         \<and> (\<forall>x \<in> set ds1.
               swept f st (db w0) (snd (cleanup_documents f st (ds1 @ d # ds2) w)) x
               \<and> reported f st w0 (snd (cleanup_documents f st (ds1 @ d # ds2) w)) x)"
  using assms(1,2)
proof (induction ds1 arbitrary: w)
  case Nil
  obtain w1 where c: "cleanup_document f st d w = (Some e, w1)"
    using cleanup_document_fault[OF assms(3), of st w]
    by (cases "cleanup_document f st d w") auto
  have "cleaned_ids (log_lines w1) = cleaned_ids (log_lines w) @ [doc_id d]"
    using cleanup_document_ids[of f st d w] c by simp
  then show ?case using c by simp
next
  case (Cons a ds1)
  have la: "images_fault f (doc_id a) = None" using Cons.prems(2) by simp
  obtain w1 where c: "cleanup_document f st a w = (None, w1)"
    using cleanup_document_swept[OF la, of st w] by (cases "cleanup_document f st a w") auto
  have dbs: "db w = db w0" by (rule carried_db[OF Cons.prems(1)])
  have c1: "carried f w0 w1"
    using carried_trans[OF Cons.prems(1) carried_cleanup_document[of f w st a]] c by simp
  have sa: "swept f st (db w0) w1 a"
    using cleanup_document_swept[OF la, of st w] c dbs by simp
  have ra: "reported f st w0 w1 a"
    using cleanup_document_reported[OF Cons.prems(1) la, of st] c by simp
  have ia: "cleaned_ids (log_lines w1) = cleaned_ids (log_lines w) @ [doc_id a]"
    using cleanup_document_ids[of f st a w] c by simp
  let ?w' = "snd (cleanup_documents f st (ds1 @ d # ds2) w1)"
  have ih: "fst (cleanup_documents f st (ds1 @ d # ds2) w1) = Some e
         \<and> cleaned_ids (log_lines ?w') = cleaned_ids (log_lines w1) @ map doc_id (ds1 @ [d])
         \<and> (\<forall>x \<in> set ds1. swept f st (db w0) ?w' x \<and> reported f st w0 ?w' x)"
    using Cons.IH[OF c1] Cons.prems(2) by simp
  have cl: "carried f w1 ?w'" by (rule carried_cleanup_documents)
  have sa': "swept f st (db w0) ?w' a" by (rule swept_mono[OF sa carried_files[OF cl]])
  have ra': "reported f st w0 ?w' a" by (rule reported_mono[OF ra carried_log[OF cl]])
  show ?case using ih sa' ra' ia c by simp
qed

text \<open>
The loop as a whole: when every image list loads, and when one does not.
\<close>

lemma process_old_documents_all:
  assumes c: "carried f w0 w" and l: "\<forall>d \<in> set ds. images_fault f (doc_id d) = None"
  shows "fst (process_old_documents f st ds w) = None
         \<and> cleaned_ids (log_lines (snd (process_old_documents f st ds w)))
             = cleaned_ids (log_lines w) @ map doc_id ds
         \<and> (\<forall>d \<in> set ds. swept f st (db w0) (snd (process_old_documents f st ds w)) d
                        \<and> reported f st w0 (snd (process_old_documents f st ds w)) d)"
proof (cases "ds = []")
  case True
  then show ?thesis by (simp add: process_old_documents_def cleaned_ids_append)
next
  case False
  define w2 where "w2 = logger (LogInfo (''Found '' @ py_str (int (length ds))
                                    @ '' old documents to clean up'')) w"
  have c2: "carried f w0 w2" unfolding w2_def by (rule carried_trans[OF c carried_logger])
  have i2: "cleaned_ids (log_lines w2) = cleaned_ids (log_lines w)"
    by (simp add: w2_def cleaned_ids_append)
  note k = cleanup_documents_all[OF c2 l, of st]
  obtain w3 where r: "cleanup_documents f st ds w2 = (None, w3)"
    using k by (cases "cleanup_documents f st ds w2") auto
  define w4 where "w4 = logger (LogInfo ''File cleanup task completed'') w3"
  have res: "process_old_documents f st ds w = (None, w4)"
    using False r unfolding process_old_documents_def Let_def w2_def w4_def by simp
  have i4: "cleaned_ids (log_lines w4) = cleaned_ids (log_lines w) @ map doc_id ds"
    using k r i2 by (simp add: w4_def cleaned_ids_append)
  have s4: "\<forall>d \<in> set ds. swept f st (db w0) w4 d"
    using k r by (simp add: w4_def swept_def)
  have r4: "\<forall>d \<in> set ds. reported f st w0 w4 d"
  proof
    fix d assume "d \<in> set ds"
    then have "reported f st w0 w3 d" using k r by simp
    then show "reported f st w0 w4 d"
      by (rule reported_mono) (auto simp: w4_def)
  qed
  show ?thesis using res i4 s4 r4 by simp
qed

lemma process_old_documents_stopped:
  assumes c: "carried f w0 w" and l: "\<forall>x \<in> set ds1. images_fault f (doc_id x) = None"
      and e: "images_fault f (doc_id d) = Some e"
  shows "fst (process_old_documents f st (ds1 @ d # ds2) w) = Some e
         \<and> cleaned_ids (log_lines (snd (process_old_documents f st (ds1 @ d # ds2) w)))
             = cleaned_ids (log_lines w) @ map doc_id (ds1 @ [d])
         \<and> (\<forall>x \<in> set ds1.
               swept f st (db w0) (snd (process_old_documents f st (ds1 @ d # ds2) w)) x
               \<and> reported f st w0 (snd (process_old_documents f st (ds1 @ d # ds2) w)) x)"
proof -
  define w2 where "w2 = logger (LogInfo (''Found '' @ py_str (int (length (ds1 @ d # ds2)))
                                    @ '' old documents to clean up'')) w"
  have c2: "carried f w0 w2" unfolding w2_def by (rule carried_trans[OF c carried_logger])
  have i2: "cleaned_ids (log_lines w2) = cleaned_ids (log_lines w)"
    by (simp add: w2_def cleaned_ids_append)
  note k = cleanup_documents_stopped[OF c2 l e, of st ds2]
  obtain w3 where r: "cleanup_documents f st (ds1 @ d # ds2) w2 = (Some e, w3)"
    using k by (cases "cleanup_documents f st (ds1 @ d # ds2) w2") auto
  have res: "process_old_documents f st (ds1 @ d # ds2) w = (Some e, w3)"
    using r unfolding process_old_documents_def Let_def w2_def by simp
  show ?thesis using k r i2 by (simp add: res)
qed

lemma process_old_documents_other:
  assumes "\<forall>d \<in> set ds. q \<notin> paths_of st (db w) d" and "q \<in> files w"
  shows "q \<in> files (snd (process_old_documents f st ds w))"
proof (cases "ds = []")
  case True
  then show ?thesis using assms(2) by (simp add: process_old_documents_def)
next
  case False
  define w2 where "w2 = logger (LogInfo (''Found '' @ py_str (int (length ds))
                                    @ '' old documents to clean up'')) w"
  obtain r w3 where c: "cleanup_documents f st ds w2 = (r, w3)" by fastforce
  have "q \<in> files (snd (cleanup_documents f st ds w2))"
    using assms by (intro cleanup_documents_other) (simp_all add: w2_def)
  then have q3: "q \<in> files w3" by (simp add: c)
  have "process_old_documents f st ds w
          = (case r of Some e \<Rightarrow> (Some e, w3)
             | None \<Rightarrow> (None, logger (LogInfo ''File cleanup task completed'') w3))"
    using False c unfolding process_old_documents_def Let_def w2_def
    by (simp split: option.splits)
  then show ?thesis using q3 by (cases r) simp_all
qed

text \<open>
The sweep as a whole, by what happens first.
\<close>

lemma cleanup_old_files_aborted:
  assumes "retention_threshold now wk = Inl e
           \<or> (\<exists>t. retention_threshold now wk = Inr t \<and> connect_fault f = Some e)
           \<or> (\<exists>t. retention_threshold now wk = Inr t \<and> connect_fault f = None
                    \<and> query_fault f = Some e)"
  shows "cleanup_old_files f st now wk w
     = (Inr (), w\<lparr>log_lines := log_lines w @ [LogInfo ''Running file cleanup task'',
                                             LogError ''Error in file cleanup task: '' e]\<rparr>)"
  using assms by (auto simp: cleanup_old_files_def cleanup_body_def Let_def logger_def)

lemma cleanup_old_files_runs:
  assumes "retention_threshold now wk = Inr t" and "connect_fault f = None"
      and "query_fault f = None"
  shows "cleanup_body f st now wk w
         = process_old_documents f st (query_old_documents f t (db w))
             (logger (LogInfo ''Running file cleanup task'') w)"
  using assms by (simp add: cleanup_body_def Let_def)

lemma cleanup_old_files_all:
  assumes t: "retention_threshold now wk = Inr t" and "connect_fault f = None"
      and "query_fault f = None"
      and l: "\<forall>d \<in> set (query_old_documents f t (db w)). images_fault f (doc_id d) = None"
  shows "cleaned_ids (log_lines (snd (cleanup_old_files f st now wk w)))
           = cleaned_ids (log_lines w) @ map doc_id (query_old_documents f t (db w))
         \<and> (\<forall>d \<in> set (query_old_documents f t (db w)).
               swept f st (db w) (snd (cleanup_old_files f st now wk w)) d
               \<and> reported f st w (snd (cleanup_old_files f st now wk w)) d)"
proof -
  define w1 where "w1 = logger (LogInfo ''Running file cleanup task'') w"
  define ds where "ds = query_old_documents f t (db w)"
  have body: "cleanup_body f st now wk w = process_old_documents f st ds w1"
    using cleanup_old_files_runs[OF assms(1,2,3)] by (simp add: w1_def ds_def)
  have c1: "carried f w w1" unfolding w1_def by (rule carried_logger)
  have i1: "cleaned_ids (log_lines w1) = cleaned_ids (log_lines w)"
    by (simp add: w1_def cleaned_ids_append)
  have l': "\<forall>d \<in> set ds. images_fault f (doc_id d) = None" using l by (simp add: ds_def)
  note k = process_old_documents_all[OF c1 l', of st]
  obtain w' where r: "process_old_documents f st ds w1 = (None, w')"
    using k by (cases "process_old_documents f st ds w1") auto
  have "snd (cleanup_old_files f st now wk w) = w'"
    by (simp add: cleanup_old_files_def body r)
  then show ?thesis using k r i1 by (simp add: ds_def)
qed

lemma cleanup_old_files_stopped:
  assumes t: "retention_threshold now wk = Inr t" and "connect_fault f = None"
      and "query_fault f = None"
      and q: "query_old_documents f t (db w) = ds1 @ d # ds2"
      and l: "\<forall>x \<in> set ds1. images_fault f (doc_id x) = None"
      and e: "images_fault f (doc_id d) = Some e"
  shows "last (log_lines (snd (cleanup_old_files f st now wk w)))
           = LogError ''Error in file cleanup task: '' e
         \<and> cleaned_ids (log_lines (snd (cleanup_old_files f st now wk w)))
             = cleaned_ids (log_lines w) @ map doc_id (ds1 @ [d])
         \<and> (\<forall>x \<in> set ds1.
               swept f st (db w) (snd (cleanup_old_files f st now wk w)) x
               \<and> reported f st w (snd (cleanup_old_files f st now wk w)) x)"
proof -
  define w1 where "w1 = logger (LogInfo ''Running file cleanup task'') w"
  have body: "cleanup_body f st now wk w = process_old_documents f st (ds1 @ d # ds2) w1"
    using cleanup_old_files_runs[OF assms(1,2,3)] q by (simp add: w1_def)
  have c1: "carried f w w1" unfolding w1_def by (rule carried_logger)
  have i1: "cleaned_ids (log_lines w1) = cleaned_ids (log_lines w)"
    by (simp add: w1_def cleaned_ids_append)
  note k = process_old_documents_stopped[OF c1 l e, of st ds2]
  obtain w3 where r: "process_old_documents f st (ds1 @ d # ds2) w1 = (Some e, w3)"
    using k by (cases "process_old_documents f st (ds1 @ d # ds2) w1") auto
  define w4 where "w4 = logger (LogError ''Error in file cleanup task: '' e) w3"
  have res: "snd (cleanup_old_files f st now wk w) = w4"
    by (simp add: cleanup_old_files_def body r w4_def)
  have i4: "cleaned_ids (log_lines w4) = cleaned_ids (log_lines w) @ map doc_id (ds1 @ [d])"
    using k r i1 by (simp add: w4_def cleaned_ids_append)
  have s4: "\<forall>x \<in> set ds1. swept f st (db w) w4 x"
    using k r by (simp add: w4_def swept_def)
  have r4: "\<forall>x \<in> set ds1. reported f st w w4 x"
  proof
    fix x assume "x \<in> set ds1"
    then have "reported f st w w3 x" using k r by simp
    then show "reported f st w w4 x" by (rule reported_mono) (auto simp: w4_def)
  qed
  show ?thesis unfolding res using i4 s4 r4 by (simp add: w4_def)
qed

lemma cleanup_old_files_other:
  assumes t: "retention_threshold now wk = Inr t"
      and n: "\<forall>d \<in> set (query_old_documents f t (db w)). q \<notin> paths_of st (db w) d"
      and q: "q \<in> files w"
  shows "q \<in> files (snd (cleanup_old_files f st now wk w))"
proof -
  define w1 where "w1 = logger (LogInfo ''Running file cleanup task'') w"
  have p: "q \<in> files (snd (process_old_documents f st (query_old_documents f t (db w)) w1))"
    using n q by (intro process_old_documents_other) (simp_all add: w1_def)
  have "snd (cleanup_body f st now wk w) = w1
        \<or> snd (cleanup_body f st now wk w)
            = snd (process_old_documents f st (query_old_documents f t (db w)) w1)"
    using t by (auto simp: cleanup_body_def Let_def w1_def split: option.splits)
  then have "q \<in> files (snd (cleanup_body f st now wk w))"
    using p q by (auto simp: w1_def)
  then show ?thesis
    by (cases "cleanup_body f st now wk w") (auto simp: cleanup_old_files_def split: option.splits)
qed

text \<open>
The threshold on a representable cutoff, and the selection on one time axis.
\<close>

lemma retention_threshold_cases:
  assumes "0 \<le> now" and "now \<le> datetime_max"
      and "now - 60000000 * retention_minutes wk \<le> datetime_max"
  shows "retention_threshold now wk = Inr (now - 60000000 * retention_minutes wk)
         \<or> (retention_threshold now wk = Inl OverflowError
            \<and> now - 60000000 * retention_minutes wk < 0)"
  using assms
  by (auto simp: retention_threshold_def timedelta_minutes_def datetime_max_def
           split: sum.splits if_splits)

lemma query_on_one_axis:
  assumes "db_compare f = compare_instants"
  shows "query_old_documents f (now - 60000000 * r) database = strictly_older now r database"
proof -
  have "(compare_instants c t = Before) = (c < t)" for c t
    by (simp add: compare_instants_def)
  then show ?thesis
    using assms by (simp add: query_old_documents_def strictly_older_def)
qed

lemma strictly_older_none:
  assumes "\<forall>d \<in> set (pdf_documents database). 0 \<le> created_at d"
      and "now - 60000000 * r < 0"
  shows "strictly_older now r database = []"
  using assms by (auto simp: strictly_older_def filter_empty_conv)

text \<open>
Evaluation of the concrete sweeps.
\<close>

lemma threshold0: "retention_threshold now0 wk0 = Inr 600000000"
  by (simp add: retention_threshold_def now0_def wk0_def timedelta_minutes_def datetime_max_def)

lemma threshold_overflow: "retention_threshold now0 wk_overflow = Inl OverflowError"
  by (simp add: retention_threshold_def wk_overflow_def timedelta_minutes_def)

lemma old_two_docs:
  "query_old_documents lazy_load_fault 600000000 (db world_two_docs) = [doc1, doc2]"
  "query_old_documents remove_fault_one 600000000 (db world_two_docs) = [doc1, doc2]"
  by (simp_all add: query_old_documents_def world_two_docs_def doc1_def doc2_def
                    lazy_load_fault_def remove_fault_one_def compare_instants_def)

lemma paths0:
  "pdf_path_of st0 doc1 = ''/srv/uploads/pdfs/one.pdf''"
  "pdf_path_of st0 doc2 = ''/srv/uploads/pdfs/two.pdf''"
  "image_path_of st0 img1 = ''/srv/uploads/images/d1_page_1_image_0.png''"
  "pdf_path_of st0 doc_boundary = ''/srv/uploads/pdfs/b0.pdf''"
  "pdf_path_of st0 doc_1ms_older = ''/srv/uploads/pdfs/b1.pdf''"
  by (simp_all add: pdf_path_of_def image_path_of_def st0_def doc1_def doc2_def
                    img1_def doc_boundary_def doc_1ms_older_def os_path_join_def)

lemma images0:
  "images_of (db world_two_docs) doc1 = [img1]"
  "images_of (db world_two_docs) doc2 = []"
  "images_of (db world_boundary) doc_1ms_older = []"
  by (simp_all add: images_of_def world_two_docs_def world_boundary_def db_boundary_def
                    doc1_def doc2_def img1_def doc_1ms_older_def)

lemma sweep_lazy_load_fault_trace:
  "cleanup_old_files lazy_load_fault st0 now0 wk0 world_two_docs
     = (Inr (),
        world_two_docs
          \<lparr>files := {''/srv/uploads/pdfs/two.pdf''},
           log_lines :=
             [LogInfo ''Running file cleanup task'',
              LogInfo ''Found 2 old documents to clean up'',
              LogInfo ''Cleaning up document: d1'',
              LogInfo ''Deleted PDF file: /srv/uploads/pdfs/one.pdf'',
              LogError ''Error in file cleanup task: '' (Failure ''connection lost'')]\<rparr>)"
proof -
  have c: "connect_fault lazy_load_fault = None" "query_fault lazy_load_fault = None"
    by (simp_all add: lazy_load_fault_def)
  show ?thesis
    unfolding cleanup_old_files_def cleanup_old_files_runs[OF threshold0 c]
    by (simp add: old_two_docs process_old_documents_def Let_def)
       (auto simp: cleanup_document_def Let_def delete_pdf_file_def os_remove_def
                document_images_def logger_def os_path_join_def world_two_docs_def
                lazy_load_fault_def doc1_def doc2_def st0_def py_str_def str_nat.simps
                digit_char_def)
qed

lemma carried_process_old_documents: "carried f w (snd (process_old_documents f st ds w))"
proof (cases "ds = []")
  case True
  then show ?thesis by (simp add: process_old_documents_def carried_logger)
next
  case False
  define w2 where "w2 = logger (LogInfo (''Found '' @ py_str (int (length ds))
                                    @ '' old documents to clean up'')) w"
  obtain r w3 where c: "cleanup_documents f st ds w2 = (r, w3)" by fastforce
  have "carried f w2 (snd (cleanup_documents f st ds w2))" by (rule carried_cleanup_documents)
  then have "carried f w2 w3" by (simp add: c)
  moreover have "carried f w w2" unfolding w2_def by (rule carried_logger)
  ultimately have c3: "carried f w w3" using carried_trans by blast
  have "process_old_documents f st ds w
          = (case r of Some e \<Rightarrow> (Some e, w3)
             | None \<Rightarrow> (None, logger (LogInfo ''File cleanup task completed'') w3))"
    using False c unfolding process_old_documents_def Let_def w2_def
    by (simp split: option.splits)
  then show ?thesis
    using c3 carried_trans[OF c3 carried_logger] by (cases r) simp_all
qed

lemma carried_cleanup_old_files: "carried f w (snd (cleanup_old_files f st now wk w))"
proof -
  define w1 where "w1 = logger (LogInfo ''Running file cleanup task'') w"
  have c1: "carried f w w1" unfolding w1_def by (rule carried_logger)
  have "snd (cleanup_body f st now wk w) = w1
        \<or> (\<exists>ds. snd (cleanup_body f st now wk w) = snd (process_old_documents f st ds w1))"
    by (auto simp: cleanup_body_def Let_def w1_def split: option.splits sum.splits)
  then have b: "carried f w (snd (cleanup_body f st now wk w))"
    using c1 carried_trans[OF c1 carried_process_old_documents] by auto
  obtain r w' where e: "cleanup_body f st now wk w = (r, w')" by fastforce
  show ?thesis
    using b carried_trans[OF b carried_logger] e
    by (cases r) (simp_all add: cleanup_old_files_def)
qed

lemma start_wk0: "start fire0 wk0 = Inr (wk0\<lparr>scheduler := running_scheduler\<rparr>)"
  by (simp add: start_def scheduler_start_def wk0_def stopped_scheduler_def
                running_scheduler_def)

lemma py_int_abc: "py_int ''abc'' = Inl ValueError" by code_simp

lemma py_int_30: "py_int ''30'' = Inr 30" by code_simp

text \<open>
Evaluation of the concrete conversions and of the life cycle.
\<close>

lemma py_int_30_0: "py_int ''30.0'' = Inl ValueError" by code_simp

lemma lax_int_30_0: "lax_int ''30.0'' = Some 30" by code_simp

lemma lax_int_30: "lax_int ''30'' = Some 30" by code_simp

lemma lax_int_abc: "lax_int ''abc'' = None" by code_simp

lemma worker_built:
  "FileCleanupWorker None r = Inr \<lparr>retention_minutes = r, scheduler = stopped_scheduler\<rparr>"
  by (simp add: FileCleanupWorker_def stopped_scheduler_def)

section \<open>The claims\<close>

subsection \<open>C1: the sweep and the document rows\<close>

text \<open>
  Claim C1 says that the sweep deletes the database row of every selected document, also when
  its files are missing. It does not: here \<open>doc1\<close> is selected, its files are missing, the
  sweep returns normally, and the document row and its image row are still stored afterwards.
\<close>

theorem sweep_keeps_document_row:
  "retention_threshold now0 wk0 = Inr 600000000
   \<and> query_old_documents no_faults 600000000 (db world_missing_files) = [doc1]
   \<and> pdf_path_of st0 doc1 \<notin> files world_missing_files
   \<and> fst (cleanup_old_files no_faults st0 now0 wk0 world_missing_files) = Inr ()
   \<and> pdf_documents (db (snd (cleanup_old_files no_faults st0 now0 wk0 world_missing_files)))
       = [doc1]
   \<and> images (db (snd (cleanup_old_files no_faults st0 now0 wk0 world_missing_files)))
       = [img1]"
proof -
  have q: "query_old_documents no_faults 600000000 (db world_missing_files) = [doc1]"
    by (simp add: query_old_documents_def world_missing_files_def doc1_def no_faults_def
                  compare_instants_def)
  have c: "connect_fault no_faults = None" "query_fault no_faults = None"
    by (simp_all add: no_faults_def)
  have r: "cleanup_old_files no_faults st0 now0 wk0 world_missing_files
           = (Inr (),
              world_missing_files
                \<lparr>log_lines :=
                   [LogInfo ''Running file cleanup task'',
                    LogInfo ''Found 1 old documents to clean up'',
                    LogInfo ''Cleaning up document: d1'',
                    LogWarning ''PDF file not found for deletion: /srv/uploads/pdfs/one.pdf'',
                    LogWarning (''Image file not found for deletion: ''
                                @ ''/srv/uploads/images/d1_page_1_image_0.png''),
                    LogInfo ''File cleanup task completed'']\<rparr>)"
    unfolding cleanup_old_files_def cleanup_old_files_runs[OF threshold0 c]
    by (simp add: q process_old_documents_def Let_def)
       (simp add: cleanup_document_def Let_def delete_pdf_file_def delete_image_file_def
                  document_images_def logger_def os_path_join_def world_missing_files_def
                  no_faults_def doc1_def img1_def st0_def py_str_def str_nat.simps
                  digit_char_def)
  show ?thesis
    by (simp add: q r threshold0 paths0) (simp add: world_missing_files_def)
qed

text \<open>
  Claim C1, as amended. The sweep attempts the file deletions only: for every outcome of
  these attempts, also when the files are missing, the stored documents and their text,
  image and table rows are the same after the sweep as before.
\<close>

theorem sweep_leaves_rows:
  "db (snd (cleanup_old_files f st now wk w)) = db w"
  by (rule cleanup_old_files_db)

text \<open>
  The amended statement of C1 at the sweep in which one removal fails.
\<close>

theorem sweep_leaves_rows_witness:
  "db (snd (cleanup_old_files remove_fault_one st0 now0 wk0 world_two_docs)) = db world_two_docs"
  by (rule sweep_leaves_rows)

subsection \<open>C2: the worker-status query\<close>

text \<open>
  Claim C2 says that the status query never raises and reports a failed lookup in an error
  field. The function has no handler: with a running scheduler whose job lookup raises
  (the input of \<^verbatim>\<open>test_get_worker_status_error_handling\<close>) the exception leaves the
  function; with a stopped scheduler (the input of
  \<^verbatim>\<open>test_get_worker_status_not_running\<close>) the lookup is not made and the answer has no
  error field.
\<close>

theorem get_worker_status_raises:
  "get_worker_status worker_lookup_raises = Inl (Failure ''Unexpected error'')
   \<and> get_worker_status worker_not_initialized
       = Inr (PDict [(''file_cleanup_worker'',
                PDict [(''running'', PBool False), (''retention_minutes'', PInt 10),
                       (''next_run'', PNone), (''job_count'', PInt 0)])])"
  by (simp add: get_worker_status_def next_run_def get_job_def get_jobs_def
                worker_lookup_raises_def worker_not_initialized_def)

subsection \<open>C3: which documents a sweep selects\<close>




subsection \<open>C4: the sweep and failures\<close>

text \<open>
  Claim C4 says that a failure on one document does not end the processing of the remaining
  documents. When the load of the first document's images raises, the exception reaches the
  outer handler: the sweep returns normally, but the second document is never processed
  and its removable file is still there.
\<close>

theorem sweep_aborts_on_relationship_fault:
  "retention_threshold now0 wk0 = Inr 600000000
   \<and> query_old_documents lazy_load_fault 600000000 (db world_two_docs) = [doc1, doc2]
   \<and> pdf_path_of st0 doc2 \<in> files world_two_docs
   \<and> remove_fault lazy_load_fault (pdf_path_of st0 doc2) = None
   \<and> images_fault lazy_load_fault (doc_id doc2) = None
   \<and> images_fault lazy_load_fault (doc_id doc1) = Some (Failure ''connection lost'')
   \<and> fst (cleanup_old_files lazy_load_fault st0 now0 wk0 world_two_docs) = Inr ()
   \<and> pdf_path_of st0 doc2
       \<in> files (snd (cleanup_old_files lazy_load_fault st0 now0 wk0 world_two_docs))
   \<and> cleaned_ids (log_lines (snd (cleanup_old_files lazy_load_fault st0 now0 wk0
                                    world_two_docs))) = [''d1'']"
  by (simp add: threshold0 old_two_docs paths0 sweep_lazy_load_fault_trace)
     (simp add: lazy_load_fault_def world_two_docs_def doc1_def doc2_def)

text \<open>
  Claim C4, as amended. Under every combination of failures the sweep returns normally and
  creates no file. A cutoff that cannot be represented, a session that cannot be opened and
  a failing query are logged as the error of the task and leave the files as they are. A
  failing load of a document's image list is logged as the error of the task and ends the
  sweep: the documents before it have been processed, it is the last one begun. When all
  loads succeed every selected document is processed. A processed document is swept, and
  its missing files and failing removals are in the log: a missing file or a failing
  removal of one file stops neither the other files nor the other documents. In every
  sweep the database is left as it is, a file whose removal raises is still there, and
  every file that is gone has its deletion in the log.
\<close>

theorem sweep_never_raises:
  "fst (cleanup_old_files f st now wk w) = Inr ()
   \<and> files (snd (cleanup_old_files f st now wk w)) \<subseteq> files w
   \<and> (retention_threshold now wk = Inl e
        \<or> retention_threshold now wk = Inr t \<and> connect_fault f = Some e
        \<or> retention_threshold now wk = Inr t \<and> connect_fault f = None \<and> query_fault f = Some e
       \<longrightarrow>
        snd (cleanup_old_files f st now wk w)
          = w\<lparr>log_lines := log_lines w @ [LogInfo ''Running file cleanup task'',
                                          LogError ''Error in file cleanup task: '' e]\<rparr>)
   \<and> (retention_threshold now wk = Inr t \<and> connect_fault f = None \<and> query_fault f = None
        \<and> query_old_documents f t (db w) = ds1 @ d # ds2
        \<and> (\<forall>x \<in> set ds1. images_fault f (doc_id x) = None)
        \<and> images_fault f (doc_id d) = Some e
       \<longrightarrow>
        last (log_lines (snd (cleanup_old_files f st now wk w)))
          = LogError ''Error in file cleanup task: '' e
        \<and> cleaned_ids (log_lines (snd (cleanup_old_files f st now wk w)))
            = cleaned_ids (log_lines w) @ map doc_id (ds1 @ [d])
        \<and> (\<forall>x \<in> set ds1.
              swept f st (db w) (snd (cleanup_old_files f st now wk w)) x
              \<and> reported f st w (snd (cleanup_old_files f st now wk w)) x))
   \<and> (retention_threshold now wk = Inr t \<and> connect_fault f = None \<and> query_fault f = None
        \<and> (\<forall>x \<in> set (query_old_documents f t (db w)). images_fault f (doc_id x) = None)
       \<longrightarrow>
        cleaned_ids (log_lines (snd (cleanup_old_files f st now wk w)))
          = cleaned_ids (log_lines w) @ map doc_id (query_old_documents f t (db w))
        \<and> (\<forall>x \<in> set (query_old_documents f t (db w)).
              swept f st (db w) (snd (cleanup_old_files f st now wk w)) x
              \<and> reported f st w (snd (cleanup_old_files f st now wk w)) x))
   \<and> carried f w (snd (cleanup_old_files f st now wk w))"
proof (intro conjI impI)
  show "fst (cleanup_old_files f st now wk w) = Inr ()" by (rule cleanup_old_files_returns)
  show "files (snd (cleanup_old_files f st now wk w)) \<subseteq> files w"
    by (rule cleanup_old_files_files)
next
  assume "retention_threshold now wk = Inl e
        \<or> retention_threshold now wk = Inr t \<and> connect_fault f = Some e
        \<or> retention_threshold now wk = Inr t \<and> connect_fault f = None \<and> query_fault f = Some e"
  then have "cleanup_old_files f st now wk w
     = (Inr (), w\<lparr>log_lines := log_lines w @ [LogInfo ''Running file cleanup task'',
                                             LogError ''Error in file cleanup task: '' e]\<rparr>)"
    by (intro cleanup_old_files_aborted) blast
  then show "snd (cleanup_old_files f st now wk w)
          = w\<lparr>log_lines := log_lines w @ [LogInfo ''Running file cleanup task'',
                                          LogError ''Error in file cleanup task: '' e]\<rparr>"
    by simp
next
  assume a: "retention_threshold now wk = Inr t \<and> connect_fault f = None \<and> query_fault f = None
        \<and> query_old_documents f t (db w) = ds1 @ d # ds2
        \<and> (\<forall>x \<in> set ds1. images_fault f (doc_id x) = None)
        \<and> images_fault f (doc_id d) = Some e"
  then have k: "last (log_lines (snd (cleanup_old_files f st now wk w)))
           = LogError ''Error in file cleanup task: '' e
         \<and> cleaned_ids (log_lines (snd (cleanup_old_files f st now wk w)))
             = cleaned_ids (log_lines w) @ map doc_id (ds1 @ [d])
         \<and> (\<forall>x \<in> set ds1.
               swept f st (db w) (snd (cleanup_old_files f st now wk w)) x
               \<and> reported f st w (snd (cleanup_old_files f st now wk w)) x)"
    by (intro cleanup_old_files_stopped) blast+
  show "last (log_lines (snd (cleanup_old_files f st now wk w)))
          = LogError ''Error in file cleanup task: '' e"
    using k by blast
  show "cleaned_ids (log_lines (snd (cleanup_old_files f st now wk w)))
            = cleaned_ids (log_lines w) @ map doc_id (ds1 @ [d])"
    using k by blast
  show "\<forall>x \<in> set ds1.
              swept f st (db w) (snd (cleanup_old_files f st now wk w)) x
              \<and> reported f st w (snd (cleanup_old_files f st now wk w)) x"
    using k by blast
next
  assume a: "retention_threshold now wk = Inr t \<and> connect_fault f = None \<and> query_fault f = None
        \<and> (\<forall>x \<in> set (query_old_documents f t (db w)). images_fault f (doc_id x) = None)"
  then have k: "cleaned_ids (log_lines (snd (cleanup_old_files f st now wk w)))
           = cleaned_ids (log_lines w) @ map doc_id (query_old_documents f t (db w))
         \<and> (\<forall>d \<in> set (query_old_documents f t (db w)).
               swept f st (db w) (snd (cleanup_old_files f st now wk w)) d
               \<and> reported f st w (snd (cleanup_old_files f st now wk w)) d)"
    by (intro cleanup_old_files_all) blast+
  show "cleaned_ids (log_lines (snd (cleanup_old_files f st now wk w)))
          = cleaned_ids (log_lines w) @ map doc_id (query_old_documents f t (db w))"
    using k by blast
  show "\<forall>x \<in> set (query_old_documents f t (db w)).
              swept f st (db w) (snd (cleanup_old_files f st now wk w)) x
              \<and> reported f st w (snd (cleanup_old_files f st now wk w)) x"
    using k by blast
next
  show "carried f w (snd (cleanup_old_files f st now wk w))"
    by (rule carried_cleanup_old_files)
qed

text \<open>
  The amended statement of C4 at an overflowing cutoff, a failing connection, a failing
  query, a failing load of the first document's image list, and a sweep in which the removal
  of the first document's file raises, its image is missing, and the second document's file
  is removed.
\<close>

theorem sweep_never_raises_witness:
  "snd (cleanup_old_files no_faults st0 now0 wk_overflow world_two_docs)
     = world_two_docs\<lparr>log_lines := log_lines world_two_docs
          @ [LogInfo ''Running file cleanup task'',
             LogError ''Error in file cleanup task: '' OverflowError]\<rparr>
   \<and> snd (cleanup_old_files connect_fault_only st0 now0 wk0 world_two_docs)
       = world_two_docs\<lparr>log_lines := log_lines world_two_docs
            @ [LogInfo ''Running file cleanup task'',
               LogError ''Error in file cleanup task: '' (Failure ''Database error'')]\<rparr>
   \<and> snd (cleanup_old_files query_fault_only st0 now0 wk0 world_two_docs)
       = world_two_docs\<lparr>log_lines := log_lines world_two_docs
            @ [LogInfo ''Running file cleanup task'',
               LogError ''Error in file cleanup task: ''
                        (Failure ''server closed the connection'')]\<rparr>
   \<and> last (log_lines (snd (cleanup_old_files lazy_load_fault st0 now0 wk0 world_two_docs)))
       = LogError ''Error in file cleanup task: '' (Failure ''connection lost'')
   \<and> cleaned_ids (log_lines (snd (cleanup_old_files lazy_load_fault st0 now0 wk0
                                    world_two_docs))) = [''d1'']
   \<and> cleaned_ids (log_lines (snd (cleanup_old_files remove_fault_one st0 now0 wk0
                                    world_two_docs))) = [''d1'', ''d2'']
   \<and> LogError ''Error deleting PDF file /srv/uploads/pdfs/one.pdf: ''
               (Failure ''Permission denied'')
       \<in> set (log_lines (snd (cleanup_old_files remove_fault_one st0 now0 wk0 world_two_docs)))
   \<and> LogWarning (''Image file not found for deletion: ''
                  @ ''/srv/uploads/images/d1_page_1_image_0.png'')
       \<in> set (log_lines (snd (cleanup_old_files remove_fault_one st0 now0 wk0 world_two_docs)))
   \<and> ''/srv/uploads/pdfs/one.pdf''
       \<in> files (snd (cleanup_old_files remove_fault_one st0 now0 wk0 world_two_docs))
   \<and> ''/srv/uploads/pdfs/two.pdf''
       \<notin> files (snd (cleanup_old_files remove_fault_one st0 now0 wk0 world_two_docs))
   \<and> (LogInfo (''Deleted PDF file: '' @ ''/srv/uploads/pdfs/two.pdf'')
         \<in> set (log_lines (snd (cleanup_old_files remove_fault_one st0 now0 wk0
                                   world_two_docs)))
        \<or> LogInfo (''Deleted image file: '' @ ''/srv/uploads/pdfs/two.pdf'')
            \<in> set (log_lines (snd (cleanup_old_files remove_fault_one st0 now0 wk0
                                      world_two_docs))))"
proof -
  note t1 = sweep_never_raises [THEN conjunct2, THEN conjunct2, THEN conjunct1,
              of now0 wk_overflow OverflowError 0 no_faults st0 world_two_docs]
  have a1: "snd (cleanup_old_files no_faults st0 now0 wk_overflow world_two_docs)
     = world_two_docs\<lparr>log_lines := log_lines world_two_docs
          @ [LogInfo ''Running file cleanup task'',
             LogError ''Error in file cleanup task: '' OverflowError]\<rparr>"
    using t1 threshold_overflow by blast
  note t2 = sweep_never_raises [THEN conjunct2, THEN conjunct2, THEN conjunct1,
              of now0 wk0 "Failure ''Database error''" 600000000 connect_fault_only st0
                 world_two_docs]
  have a2: "snd (cleanup_old_files connect_fault_only st0 now0 wk0 world_two_docs)
       = world_two_docs\<lparr>log_lines := log_lines world_two_docs
            @ [LogInfo ''Running file cleanup task'',
               LogError ''Error in file cleanup task: '' (Failure ''Database error'')]\<rparr>"
    using t2 threshold0 by (simp add: connect_fault_only_def)
  note t3 = sweep_never_raises [THEN conjunct2, THEN conjunct2, THEN conjunct1,
              of now0 wk0 "Failure ''server closed the connection''" 600000000
                 query_fault_only st0 world_two_docs]
  have a3: "snd (cleanup_old_files query_fault_only st0 now0 wk0 world_two_docs)
       = world_two_docs\<lparr>log_lines := log_lines world_two_docs
            @ [LogInfo ''Running file cleanup task'',
               LogError ''Error in file cleanup task: ''
                        (Failure ''server closed the connection'')]\<rparr>"
    using t3 threshold0 by (simp add: query_fault_only_def)
  note t4 = sweep_never_raises [THEN conjunct2, THEN conjunct2, THEN conjunct2, THEN conjunct1,
              of now0 wk0 600000000 lazy_load_fault world_two_docs "[]" doc1 "[doc2]"
                 "Failure ''connection lost''" st0]
  have h4: "retention_threshold now0 wk0 = Inr 600000000 \<and> connect_fault lazy_load_fault = None
        \<and> query_fault lazy_load_fault = None
        \<and> query_old_documents lazy_load_fault 600000000 (db world_two_docs) = [] @ doc1 # [doc2]
        \<and> (\<forall>x \<in> set []. images_fault lazy_load_fault (doc_id x) = None)
        \<and> images_fault lazy_load_fault (doc_id doc1) = Some (Failure ''connection lost'')"
    by (simp add: threshold0 old_two_docs) (simp add: lazy_load_fault_def doc1_def)
  have a4: "last (log_lines (snd (cleanup_old_files lazy_load_fault st0 now0 wk0 world_two_docs)))
       = LogError ''Error in file cleanup task: '' (Failure ''connection lost'')
     \<and> cleaned_ids (log_lines (snd (cleanup_old_files lazy_load_fault st0 now0 wk0
                                    world_two_docs)))
         = cleaned_ids (log_lines world_two_docs) @ map doc_id ([] @ [doc1])"
    using t4 h4 by blast
  note t5 = sweep_never_raises [THEN conjunct2, THEN conjunct2, THEN conjunct2, THEN conjunct2,
              THEN conjunct1, of now0 wk0 600000000 remove_fault_one world_two_docs st0]
  note t6 = sweep_never_raises [THEN conjunct2, THEN conjunct2, THEN conjunct2, THEN conjunct2,
              THEN conjunct2, of remove_fault_one world_two_docs st0 now0 wk0]
  have h5: "retention_threshold now0 wk0 = Inr 600000000 \<and> connect_fault remove_fault_one = None
        \<and> query_fault remove_fault_one = None
        \<and> (\<forall>x \<in> set (query_old_documents remove_fault_one 600000000 (db world_two_docs)).
              images_fault remove_fault_one (doc_id x) = None)"
    by (simp add: threshold0) (simp add: remove_fault_one_def)
  let ?w' = "snd (cleanup_old_files remove_fault_one st0 now0 wk0 world_two_docs)"
  have a5: "cleaned_ids (log_lines ?w')
          = cleaned_ids (log_lines world_two_docs)
            @ map doc_id (query_old_documents remove_fault_one 600000000 (db world_two_docs))
        \<and> (\<forall>x \<in> set (query_old_documents remove_fault_one 600000000 (db world_two_docs)).
              swept remove_fault_one st0 (db world_two_docs) ?w' x
              \<and> reported remove_fault_one st0 world_two_docs ?w' x)"
    using t5 h5 by blast
  have s1: "reported remove_fault_one st0 world_two_docs ?w' doc1"
    and s2: "swept remove_fault_one st0 (db world_two_docs) ?w' doc2"
    using a5 by (simp_all add: old_two_docs)
  have f1: "remove_fault remove_fault_one ''/srv/uploads/pdfs/one.pdf''
              = Some (Failure ''Permission denied'')"
           "remove_fault remove_fault_one ''/srv/uploads/pdfs/two.pdf'' = None"
    by (simp_all add: remove_fault_one_def)
  have f2: "''/srv/uploads/pdfs/one.pdf'' \<in> files world_two_docs"
           "''/srv/uploads/images/d1_page_1_image_0.png'' \<notin> files world_two_docs"
    by (simp_all add: world_two_docs_def)
  have b1: "LogError ''Error deleting PDF file /srv/uploads/pdfs/one.pdf: ''
               (Failure ''Permission denied'') \<in> set (log_lines ?w')"
    using s1 f1 f2 by (simp add: reported_def paths0 images0)
  have b2: "LogWarning (''Image file not found for deletion: ''
                  @ ''/srv/uploads/images/d1_page_1_image_0.png'') \<in> set (log_lines ?w')"
    using s1 f1 f2 by (simp add: reported_def paths0 images0)
  have b3: "''/srv/uploads/pdfs/two.pdf'' \<notin> files ?w'"
    using s2 f1 by (simp add: swept_def paths0 images0)
  have t0: "retention_threshold now0 wk0 = Inr 600000000 \<and> connect_fault remove_fault_one = None
        \<and> query_fault remove_fault_one = None"
    using h5 by blast
  have f3: "''/srv/uploads/pdfs/two.pdf'' \<in> files world_two_docs"
    by (simp add: world_two_docs_def)
  have b4: "''/srv/uploads/pdfs/one.pdf'' \<in> files ?w'"
    using t6 f1 f2 unfolding carried_def by blast
  have b5: "LogInfo (''Deleted PDF file: '' @ ''/srv/uploads/pdfs/two.pdf'') \<in> set (log_lines ?w')
            \<or> LogInfo (''Deleted image file: '' @ ''/srv/uploads/pdfs/two.pdf'')
                \<in> set (log_lines ?w')"
    using t6 f3 b3 unfolding carried_def by blast
  have ids: "cleaned_ids (log_lines ?w') = [''d1'', ''d2'']"
    using a5 by (simp add: old_two_docs) (simp add: world_two_docs_def doc1_def doc2_def)
  have ids4: "cleaned_ids (log_lines (snd (cleanup_old_files lazy_load_fault st0 now0 wk0
                                    world_two_docs))) = [''d1'']"
    using a4 by (simp add: world_two_docs_def doc1_def)
  show ?thesis using a1 a2 a3 a4 ids4 ids b1 b2 b3 b4 b5 by blast
qed

subsection \<open>C5: bulk insert of text rows\<close>

text \<open>
  Claim C5. A label "Page N" is parsed to N. If any label of the mapping is malformed the
  operation fails and the committed rows are unchanged; whenever the operation fails the
  committed rows are unchanged; and when every label is well formed and the commit succeeds,
  all rows of the call are committed together, in the order of the mapping.
\<close>

theorem save_text_content_all_or_nothing:
  "page_number_of_key (''Page '' @ py_str n) = Inr n
   \<and> ((\<exists>kc \<in> set text_data. isl (page_number_of_key (fst kc))) \<longrightarrow>
        isl (fst (save_text_content s document_id text_data))
        \<and> store (snd (save_text_content s document_id text_data)) = store s)
   \<and> (isl (fst (save_text_content s document_id text_data)) \<longrightarrow>
        store (snd (save_text_content s document_id text_data)) = store s)
   \<and> ((\<forall>kc \<in> set text_data. \<not> isl (page_number_of_key (fst kc))) \<and> commit_fault s = None \<longrightarrow>
        fst (save_text_content s document_id text_data)
          = Inr (map (text_row document_id) text_data)
        \<and> store (snd (save_text_content s document_id text_data))
          = fold insert_row (pending s @ map TextRow (map (text_row document_id) text_data))
              (store s))"
proof (intro conjI impI)
  show "page_number_of_key (''Page '' @ py_str n) = Inr n" by (rule page_label_parsed)
next
  assume a: "\<exists>kc \<in> set text_data. isl (page_number_of_key (fst kc))"
  show "isl (fst (save_text_content s document_id text_data))"
    by (rule save_text_content_malformed[OF a])
  then show "store (snd (save_text_content s document_id text_data)) = store s"
    by (rule save_text_content_failure_store)
next
  assume "isl (fst (save_text_content s document_id text_data))"
  then show "store (snd (save_text_content s document_id text_data)) = store s"
    by (rule save_text_content_failure_store)
next
  assume a: "(\<forall>kc \<in> set text_data. \<not> isl (page_number_of_key (fst kc))) \<and> commit_fault s = None"
  then have eq: "save_text_content s document_id text_data
         = (Inr (map (text_row document_id) text_data),
            s\<lparr>store := fold insert_row
                          (pending s @ map TextRow (map (text_row document_id) text_data))
                          (store s),
              pending := []\<rparr>)"
    using save_text_content_success by blast
  show "fst (save_text_content s document_id text_data) = Inr (map (text_row document_id) text_data)"
    by (simp add: eq)
  show "store (snd (save_text_content s document_id text_data))
          = fold insert_row (pending s @ map TextRow (map (text_row document_id) text_data))
              (store s)"
    by (simp add: eq)
qed

text \<open>
  C5 at a mapping with a malformed second label and at a well-formed mapping.
\<close>

theorem save_text_content_all_or_nothing_witness:
  "(\<exists>kc \<in> set [(''Page 1'', ''a''), (''Page two'', ''b'')]. isl (page_number_of_key (fst kc)))
   \<and> isl (fst (save_text_content fresh_session ''d1'' [(''Page 1'', ''a''), (''Page two'', ''b'')]))
   \<and> store (snd (save_text_content fresh_session ''d1'' [(''Page 1'', ''a''), (''Page two'', ''b'')]))
       = empty_db
   \<and> page_number_of_key ''Page 1'' = Inr 1
   \<and> page_number_of_key ''Page 2'' = Inr 2
   \<and> commit_fault fresh_session = None
   \<and> fst (save_text_content fresh_session ''d1'' [(''Page 1'', ''a''), (''Page 2'', ''b'')])
       = Inr [\<lparr>text_document_id = ''d1'', text_page_number = 1, content = ''a''\<rparr>,
              \<lparr>text_document_id = ''d1'', text_page_number = 2, content = ''b''\<rparr>]
   \<and> text_contents (store (snd (save_text_content fresh_session ''d1''
                                  [(''Page 1'', ''a''), (''Page 2'', ''b'')])))
       = [\<lparr>text_document_id = ''d1'', text_page_number = 1, content = ''a''\<rparr>,
          \<lparr>text_document_id = ''d1'', text_page_number = 2, content = ''b''\<rparr>]"
proof -
  have bad: "\<exists>kc \<in> set [(''Page 1'', ''a''), (''Page two'', ''b'')]. isl (page_number_of_key (fst kc))"
    by (simp add: key_bad)
  have good: "(\<forall>kc \<in> set [(''Page 1'', ''a''), (''Page 2'', ''b'')].
                 \<not> isl (page_number_of_key (fst kc))) \<and> commit_fault fresh_session = None"
    by (simp add: key_ok_1 key_ok_2 fresh_session_def)
  note t1 = save_text_content_all_or_nothing
              [of 1 "[(''Page 1'', ''a''), (''Page two'', ''b'')]" fresh_session "''d1''"]
  note t2 = save_text_content_all_or_nothing
              [of 1 "[(''Page 1'', ''a''), (''Page 2'', ''b'')]" fresh_session "''d1''"]
  have f1: "isl (fst (save_text_content fresh_session ''d1'' [(''Page 1'', ''a''), (''Page two'', ''b'')]))
     \<and> store (snd (save_text_content fresh_session ''d1'' [(''Page 1'', ''a''), (''Page two'', ''b'')]))
         = store fresh_session"
    using t1 bad by blast
  have f2: "fst (save_text_content fresh_session ''d1'' [(''Page 1'', ''a''), (''Page 2'', ''b'')])
          = Inr (map (text_row ''d1'') [(''Page 1'', ''a''), (''Page 2'', ''b'')])
        \<and> store (snd (save_text_content fresh_session ''d1'' [(''Page 1'', ''a''), (''Page 2'', ''b'')]))
          = fold insert_row (pending fresh_session
                @ map TextRow (map (text_row ''d1'') [(''Page 1'', ''a''), (''Page 2'', ''b'')]))
              (store fresh_session)"
    using t2 good by blast
  have rows: "map (text_row ''d1'') [(''Page 1'', ''a''), (''Page 2'', ''b'')]
     = [\<lparr>text_document_id = ''d1'', text_page_number = 1, content = ''a''\<rparr>,
        \<lparr>text_document_id = ''d1'', text_page_number = 2, content = ''b''\<rparr>]"
    by (simp add: text_row_def key_ok_1 key_ok_2)
  show ?thesis
    using bad good f1 f2[unfolded rows] key_ok_1 key_ok_2
    by (simp add: fresh_session_def empty_db_def)
qed

subsection \<open>C6: start and stop\<close>

text \<open>
  Claim C6. Start and stop are idempotent transitions between STOPPED and RUNNING, read off
  the scheduler's flag and the number of calls of the scheduler's own start and shutdown:
  start on a stopped worker makes one call of the scheduler's start and leaves it running;
  start on a running worker returns the worker as it is, without a call; stop on a running
  worker makes one call of shutdown and leaves it stopped; stop on a stopped worker returns
  the worker as it is. Neither raises.
\<close>

theorem start_stop_idempotent:
  "(\<not> running (scheduler w) \<longrightarrow>
      \<not> isl (start fire w)
      \<and> running (scheduler (projr (start fire w)))
      \<and> start_calls (scheduler (projr (start fire w))) = Suc (start_calls (scheduler w))
      \<and> shutdown_calls (scheduler (projr (start fire w))) = shutdown_calls (scheduler w))
   \<and> (running (scheduler w) \<longrightarrow> start fire w = Inr w)
   \<and> (running (scheduler w) \<longrightarrow>
      \<not> isl (stop w)
      \<and> \<not> running (scheduler (projr (stop w)))
      \<and> shutdown_calls (scheduler (projr (stop w))) = Suc (shutdown_calls (scheduler w))
      \<and> start_calls (scheduler (projr (stop w))) = start_calls (scheduler w))
   \<and> (\<not> running (scheduler w) \<longrightarrow> stop w = Inr w)
   \<and> (\<forall>w'. start fire w = Inr w' \<longrightarrow> running (scheduler w') \<and> start fire' w' = Inr w')
   \<and> (\<forall>w'. stop w = Inr w' \<longrightarrow> \<not> running (scheduler w') \<and> stop w' = Inr w')"
  by (auto simp: start_def stop_def scheduler_start_def scheduler_shutdown_def)

text \<open>
  C6 along start, start, stop, stop from the freshly constructed worker.
\<close>

theorem start_stop_idempotent_witness:
  "\<not> running (scheduler wk0)
   \<and> \<not> isl (start fire0 wk0)
   \<and> running (scheduler (projr (start fire0 wk0)))
   \<and> start_calls (scheduler (projr (start fire0 wk0))) = 1
   \<and> shutdown_calls (scheduler (projr (start fire0 wk0))) = 0
   \<and> start (fire0 + 60000000) (projr (start fire0 wk0)) = Inr (projr (start fire0 wk0))
   \<and> \<not> isl (stop (projr (start fire0 wk0)))
   \<and> \<not> running (scheduler (projr (stop (projr (start fire0 wk0)))))
   \<and> start_calls (scheduler (projr (stop (projr (start fire0 wk0))))) = 1
   \<and> shutdown_calls (scheduler (projr (stop (projr (start fire0 wk0))))) = 1
   \<and> stop (projr (stop (projr (start fire0 wk0)))) = Inr (projr (stop (projr (start fire0 wk0))))"
proof -
  define w1 where "w1 = projr (start fire0 wk0)"
  define w2 where "w2 = projr (stop w1)"
  have a: "\<not> running (scheduler wk0)" by (simp add: wk0_def stopped_scheduler_def)
  have c0: "start_calls (scheduler wk0) = 0" "shutdown_calls (scheduler wk0) = 0"
    by (simp_all add: wk0_def stopped_scheduler_def)
  note t0 = start_stop_idempotent [of wk0 fire0 "fire0 + 60000000"]
  have s1: "\<not> isl (start fire0 wk0) \<and> running (scheduler w1)
            \<and> start_calls (scheduler w1) = Suc (start_calls (scheduler wk0))
            \<and> shutdown_calls (scheduler w1) = shutdown_calls (scheduler wk0)"
    using t0 a unfolding w1_def by blast
  then have e1: "start fire0 wk0 = Inr w1"
    unfolding w1_def by (cases "start fire0 wk0") auto
  have s2: "start (fire0 + 60000000) w1 = Inr w1" using t0 e1 by blast
  note t1 = start_stop_idempotent [of w1 fire0 fire0]
  have s3: "\<not> isl (stop w1) \<and> \<not> running (scheduler w2)
            \<and> shutdown_calls (scheduler w2) = Suc (shutdown_calls (scheduler w1))
            \<and> start_calls (scheduler w2) = start_calls (scheduler w1)"
    using t1 s1 unfolding w2_def by blast
  then have e2: "stop w1 = Inr w2" unfolding w2_def by (cases "stop w1") auto
  have s4: "stop w2 = Inr w2" using t1 e2 by blast
  show ?thesis
    using a s1 s2 s3 s4 c0 unfolding w1_def[symmetric] w2_def[symmetric] by simp
qed

subsection \<open>C7: the retention age\<close>

text \<open>
  Claim C7 says that an environment value that cannot be parsed as an integer makes the
  worker fall back to 10. The settings are read from the same variable. The value "30.0" is
  accepted by the settings as 30 and rejected by \<^verbatim>\<open>int\<close>; the worker is then created
  with the setting's 30.
\<close>

theorem retention_env_unparsable_keeps_setting:
  "py_int ''30.0'' = Inl ValueError
   \<and> lax_int ''30.0'' = Some 30
   \<and> file_cleanup_worker lax_int (Some ''30.0'') None upload0 image0 None None
       = Inr \<lparr>retention_minutes = 30, scheduler = stopped_scheduler\<rparr>"
  by (simp add: py_int_30_0 lax_int_30_0 file_cleanup_worker_def Settings_def create_worker_def
                retention_from_env_def Let_def worker_built)

text \<open>
  Claim C7, as amended. The retention age is fixed when the worker is created and is counted
  in minutes. It is 10 when the variable is unset in the environment and in the settings
  file. A value of the environment that \<^verbatim>\<open>int\<close> parses overrides the setting. A value
  of the environment that \<^verbatim>\<open>int\<close> does not parse leaves the setting's value in force
  when the settings accept it, and ends the import without a worker when the settings
  reject it. A value from the settings file alone is the setting. When the construction
  of the worker fails the worker is constructed again with 10. Start and stop never change
  the retention age.
\<close>

theorem retention_configuration:
  "file_cleanup_worker validate_int None None upload_folder image_folder None second_fault
     = Inr \<lparr>retention_minutes = 10, scheduler = stopped_scheduler\<rparr>
   \<and> (validate_int s = Some m \<and> s \<noteq> [] \<and> py_int s = Inr n \<longrightarrow>
        file_cleanup_worker validate_int (Some s) dotenv upload_folder image_folder
          None second_fault
          = Inr \<lparr>retention_minutes = n, scheduler = stopped_scheduler\<rparr>)
   \<and> (validate_int s = Some m \<and> py_int s = Inl ValueError \<longrightarrow>
        file_cleanup_worker validate_int (Some s) dotenv upload_folder image_folder
          None second_fault
          = Inr \<lparr>retention_minutes = m, scheduler = stopped_scheduler\<rparr>)
   \<and> (validate_int s = None \<longrightarrow>
        file_cleanup_worker validate_int (Some s) dotenv upload_folder image_folder
          first_fault second_fault
          = Inl ValidationError)
   \<and> (validate_int s = Some m \<longrightarrow>
        file_cleanup_worker validate_int None (Some s) upload_folder image_folder
          None second_fault
          = Inr \<lparr>retention_minutes = m, scheduler = stopped_scheduler\<rparr>)
   \<and> (\<not> isl (Settings validate_int environ dotenv upload_folder image_folder)
        \<and> first_fault = Some e \<longrightarrow>
        file_cleanup_worker validate_int environ dotenv upload_folder image_folder
          first_fault None
          = Inr \<lparr>retention_minutes = 10, scheduler = stopped_scheduler\<rparr>)
   \<and> (\<forall>w'. start fire w = Inr w' \<or> stop w = Inr w' \<longrightarrow>
          retention_minutes w' = retention_minutes w)
   \<and> (\<forall>t. retention_threshold now w = Inr t \<longrightarrow> t = now - 60000000 * retention_minutes w)"
proof (intro conjI impI allI)
  show "file_cleanup_worker validate_int None None upload_folder image_folder None second_fault
     = Inr \<lparr>retention_minutes = 10, scheduler = stopped_scheduler\<rparr>"
    by (simp add: file_cleanup_worker_def Settings_def create_worker_def
                  retention_from_env_def Let_def worker_built)
next
  assume "validate_int s = Some m \<and> s \<noteq> [] \<and> py_int s = Inr n"
  then show "file_cleanup_worker validate_int (Some s) dotenv upload_folder image_folder
          None second_fault
          = Inr \<lparr>retention_minutes = n, scheduler = stopped_scheduler\<rparr>"
    by (simp add: file_cleanup_worker_def Settings_def create_worker_def
                  retention_from_env_def Let_def worker_built)
next
  assume "validate_int s = Some m \<and> py_int s = Inl ValueError"
  then show "file_cleanup_worker validate_int (Some s) dotenv upload_folder image_folder
          None second_fault
          = Inr \<lparr>retention_minutes = m, scheduler = stopped_scheduler\<rparr>"
    by (simp add: file_cleanup_worker_def Settings_def create_worker_def
                  retention_from_env_def Let_def worker_built)
next
  assume "validate_int s = None"
  then show "file_cleanup_worker validate_int (Some s) dotenv upload_folder image_folder
          first_fault second_fault
          = Inl ValidationError"
    by (simp add: file_cleanup_worker_def Settings_def)
next
  assume "validate_int s = Some m"
  then show "file_cleanup_worker validate_int None (Some s) upload_folder image_folder
          None second_fault
          = Inr \<lparr>retention_minutes = m, scheduler = stopped_scheduler\<rparr>"
    by (simp add: file_cleanup_worker_def Settings_def create_worker_def
                  retention_from_env_def Let_def worker_built)
next
  assume a: "\<not> isl (Settings validate_int environ dotenv upload_folder image_folder)
        \<and> first_fault = Some e"
  then obtain st where st: "Settings validate_int environ dotenv upload_folder image_folder = Inr st"
    by (cases "Settings validate_int environ dotenv upload_folder image_folder") auto
  have "create_worker st environ (Some e) None
          = Inr \<lparr>retention_minutes = 10, scheduler = stopped_scheduler\<rparr>"
    by (simp add: create_worker_def FileCleanupWorker_def stopped_scheduler_def
             split: sum.splits)
  then show "file_cleanup_worker validate_int environ dotenv upload_folder image_folder
          first_fault None
          = Inr \<lparr>retention_minutes = 10, scheduler = stopped_scheduler\<rparr>"
    using a by (simp add: file_cleanup_worker_def st)
next
  fix w'
  assume "start fire w = Inr w' \<or> stop w = Inr w'"
  then show "retention_minutes w' = retention_minutes w"
    by (auto simp: start_def stop_def scheduler_start_def scheduler_shutdown_def
             split: if_splits)
next
  fix t
  assume "retention_threshold now w = Inr t"
  then show "t = now - 60000000 * retention_minutes w"
    by (auto simp: retention_threshold_def timedelta_minutes_def split: sum.splits if_splits)
qed

text \<open>
  The amended statement of C7 at concrete environments.
\<close>

theorem retention_configuration_witness:
  "file_cleanup_worker lax_int None None upload0 image0 None None
     = Inr \<lparr>retention_minutes = 10, scheduler = stopped_scheduler\<rparr>
   \<and> file_cleanup_worker lax_int (Some ''30'') None upload0 image0 None None
       = Inr \<lparr>retention_minutes = 30, scheduler = stopped_scheduler\<rparr>
   \<and> py_int ''30.0'' = Inl ValueError
   \<and> file_cleanup_worker lax_int (Some ''30.0'') None upload0 image0 None None
       = Inr \<lparr>retention_minutes = 30, scheduler = stopped_scheduler\<rparr>
   \<and> py_int ''abc'' = Inl ValueError
   \<and> file_cleanup_worker lax_int (Some ''abc'') None upload0 image0 None None
       = Inl ValidationError
   \<and> file_cleanup_worker lax_int None (Some ''30'') upload0 image0 None None
       = Inr \<lparr>retention_minutes = 30, scheduler = stopped_scheduler\<rparr>
   \<and> file_cleanup_worker lax_int (Some ''30'') None upload0 image0
        (Some (Failure ''no scheduler'')) None
       = Inr \<lparr>retention_minutes = 10, scheduler = stopped_scheduler\<rparr>
   \<and> \<not> isl (start fire0 wk0)
   \<and> retention_minutes (projr (start fire0 wk0)) = retention_minutes wk0
   \<and> retention_threshold now0 wk0 = Inr 600000000
   \<and> (600000000::int) = now0 - 60000000 * retention_minutes wk0"
proof -
  note t = retention_configuration
  have a1: "file_cleanup_worker lax_int None None upload0 image0 None None
     = Inr \<lparr>retention_minutes = 10, scheduler = stopped_scheduler\<rparr>"
    using t [THEN conjunct1] by blast
  have a2: "file_cleanup_worker lax_int (Some ''30'') None upload0 image0 None None
       = Inr \<lparr>retention_minutes = 30, scheduler = stopped_scheduler\<rparr>"
    using t [THEN conjunct2, THEN conjunct1, of lax_int "''30''" 30 30 None upload0 image0 None]
          lax_int_30 py_int_30 by simp
  have a3: "file_cleanup_worker lax_int (Some ''30.0'') None upload0 image0 None None
       = Inr \<lparr>retention_minutes = 30, scheduler = stopped_scheduler\<rparr>"
    using t [THEN conjunct2, THEN conjunct2, THEN conjunct1,
             of lax_int "''30.0''" 30 None upload0 image0 None]
          lax_int_30_0 py_int_30_0 by simp
  have a4: "file_cleanup_worker lax_int (Some ''abc'') None upload0 image0 None None
       = Inl ValidationError"
    using t [THEN conjunct2, THEN conjunct2, THEN conjunct2, THEN conjunct1,
             of lax_int "''abc''" None upload0 image0 None None]
          lax_int_abc by simp
  have a5: "file_cleanup_worker lax_int None (Some ''30'') upload0 image0 None None
       = Inr \<lparr>retention_minutes = 30, scheduler = stopped_scheduler\<rparr>"
    using t [THEN conjunct2, THEN conjunct2, THEN conjunct2, THEN conjunct2, THEN conjunct1,
             of lax_int "''30''" 30 upload0 image0 None]
          lax_int_30 by simp
  have ok: "\<not> isl (Settings lax_int (Some ''30'') None upload0 image0)"
    by (simp add: Settings_def lax_int_30)
  have a6: "file_cleanup_worker lax_int (Some ''30'') None upload0 image0
        (Some (Failure ''no scheduler'')) None
       = Inr \<lparr>retention_minutes = 10, scheduler = stopped_scheduler\<rparr>"
    using t [THEN conjunct2, THEN conjunct2, THEN conjunct2, THEN conjunct2, THEN conjunct2,
             THEN conjunct1,
             of lax_int "Some ''30''" None upload0 image0 "Some (Failure ''no scheduler'')"
                "Failure ''no scheduler''"]
          ok by simp
  have a7: "\<not> isl (start fire0 wk0)
            \<and> retention_minutes (projr (start fire0 wk0)) = retention_minutes wk0"
    using t [THEN conjunct2, THEN conjunct2, THEN conjunct2, THEN conjunct2, THEN conjunct2,
             THEN conjunct2, THEN conjunct1, of fire0 wk0,
             THEN spec, of "wk0\<lparr>scheduler := running_scheduler\<rparr>"]
    by (simp add: start_wk0)
  have a8: "(600000000::int) = now0 - 60000000 * retention_minutes wk0"
    using t [THEN conjunct2, THEN conjunct2, THEN conjunct2, THEN conjunct2, THEN conjunct2,
             THEN conjunct2, THEN conjunct2, of now0 wk0] threshold0 by blast
  show ?thesis
    using a1 a2 a3 a4 a5 a6 a7 a8 py_int_30_0 py_int_abc threshold0 by blast
qed

subsection \<open>C8: listing documents\<close>

text \<open>
  Claim C8. The list operation orders the stored documents newest first (a permutation of
  them, sorted by descending creation time), skips the first \<open>skip\<close> documents of that order
  and returns at most \<open>limit\<close> of the following ones.
\<close>

theorem list_documents_newest_first:
  "sorted_wrt (\<lambda>a b. created_at b \<le> created_at a)
     (order_by_created_at_desc (pdf_documents (store s)))
   \<and> mset (order_by_created_at_desc (pdf_documents (store s))) = mset (pdf_documents (store s))
   \<and> length (list_documents s skip limit) = min limit (length (pdf_documents (store s)) - skip)
   \<and> sorted_wrt (\<lambda>a b. created_at b \<le> created_at a) (list_documents s skip limit)
   \<and> (\<forall>i < length (list_documents s skip limit).
         list_documents s skip limit ! i
           = order_by_created_at_desc (pdf_documents (store s)) ! (skip + i))"
proof (intro conjI)
  show "sorted_wrt (\<lambda>a b. created_at b \<le> created_at a)
          (order_by_created_at_desc (pdf_documents (store s)))"
    by (rule order_by_sorted)
  show "mset (order_by_created_at_desc (pdf_documents (store s))) = mset (pdf_documents (store s))"
    by (rule order_by_mset)
  have len: "length (order_by_created_at_desc (pdf_documents (store s)))
             = length (pdf_documents (store s))"
    by (simp add: order_by_created_at_desc_def)
  show "length (list_documents s skip limit) = min limit (length (pdf_documents (store s)) - skip)"
    by (simp add: list_documents_def len min.commute)
  show "sorted_wrt (\<lambda>a b. created_at b \<le> created_at a) (list_documents s skip limit)"
    unfolding list_documents_def
    by (intro sorted_wrt_take sorted_wrt_drop order_by_sorted)
  show "\<forall>i < length (list_documents s skip limit).
          list_documents s skip limit ! i
            = order_by_created_at_desc (pdf_documents (store s)) ! (skip + i)"
    by (auto simp: list_documents_def len)
qed

text \<open>
  C8 at three documents with skip 1 and limit 1.
\<close>

theorem list_documents_newest_first_witness:
  "list_documents three_docs 1 1 =
     [\<lparr>doc_id = ''c'', doc_filename = ''c.pdf'', original_filename = ''C.pdf'',
       created_at = 200\<rparr>]
   \<and> (0::nat) < length (list_documents three_docs 1 1)
   \<and> list_documents three_docs 1 1 ! 0
       = order_by_created_at_desc (pdf_documents (store three_docs)) ! (1 + 0)"
proof -
  have l: "(0::nat) < length (list_documents three_docs 1 1)"
    unfolding three_docs_page by simp
  from list_documents_newest_first[of three_docs 1 1]
  have "\<forall>i < length (list_documents three_docs 1 1).
          list_documents three_docs 1 1 ! i
            = order_by_created_at_desc (pdf_documents (store three_docs)) ! (1 + i)"
    by blast
  with l have "list_documents three_docs 1 1 ! 0
       = order_by_created_at_desc (pdf_documents (store three_docs)) ! (1 + 0)"
    by blast
  with l three_docs_page show ?thesis by blast
qed

subsection \<open>C9: fetching an absent document\<close>

text \<open>
  Claim C9. For an id that no stored document has, the fetch returns \<open>None\<close>; the result is
  a value, not an exception.
\<close>

theorem get_document_absent:
  assumes "\<forall>d \<in> set (pdf_documents (store s)). doc_id d \<noteq> document_id"
  shows "get_document s document_id = None"
  using assms by (simp add: get_document_def find_None_iff)

text \<open>
  C9 at an id that was never created.
\<close>

theorem get_document_absent_witness:
  "map doc_id (pdf_documents (store three_docs)) = [''a'', ''b'', ''c'']
   \<and> ''never-created'' \<notin> set [''a'', ''b'', ''c'']
   \<and> get_document three_docs ''never-created'' = None"
proof -
  have ids: "map doc_id (pdf_documents (store three_docs)) = [''a'', ''b'', ''c'']"
    by (simp add: three_docs_def)
  have h: "\<forall>d \<in> set (pdf_documents (store three_docs)). doc_id d \<noteq> ''never-created''"
    by (simp add: three_docs_def)
  have n: "''never-created'' \<notin> set [''a'', ''b'', ''c'']" by simp
  from get_document_absent[OF h] ids n show ?thesis by blast
qed

subsection \<open>C10: image file names\<close>

text \<open>
  Claim C10. For a document id without underscore, any page number and image index, and an
  extension without underscore, parsing the generated file name gives back the document id,
  the page number and the image index. (A dot in the extension does no harm: only the part
  before the first dot of the last piece is converted.)
\<close>

theorem parse_image_filename_roundtrip:
  assumes "CHR ''_'' \<notin> set document_id" and "CHR ''_'' \<notin> set ext"
  shows "parse_image_filename (generate_image_filename document_id n i ext) = Inr (document_id, n, i)"
proof -
  obtain ps where ps: "py_split_on CHR ''.'' (py_str i @ CHR ''.'' # ext) = py_str i # ps"
    using split_dot_head by blast
  show ?thesis
    unfolding parse_image_filename_def split_generated_name[OF assms]
    by (simp add: py_index_def py_int_py_str ps)
qed

text \<open>
  C10 at the file name of the repository's own test.
\<close>

theorem parse_image_filename_roundtrip_witness:
  "CHR ''_'' \<notin> set ''abc123'' \<and> CHR ''_'' \<notin> set ''png''
   \<and> generate_image_filename ''abc123'' 1 2 ''png'' = ''abc123_page_1_image_2.png''
   \<and> parse_image_filename ''abc123_page_1_image_2.png'' = Inr (''abc123'', 1, 2)"
proof -
  have a: "CHR ''_'' \<notin> set ''abc123''" by simp
  have b: "CHR ''_'' \<notin> set ''png''" by simp
  have c: "generate_image_filename ''abc123'' 1 2 ''png'' = ''abc123_page_1_image_2.png''"
    by (simp add: generate_image_filename_def py_str_def str_nat.simps digit_char_def)
  show ?thesis
    using parse_image_filename_roundtrip[OF a b, of 1 2] a b c by simp
qed

end
